theory Spec2Isabelle
  imports Main "HOL-Library.Word"
begin

section \<open>The table builder driver of db/builder.cc\<close>

text \<open>
  \<^verbatim>\<open>BuildTable\<close> (db/builder.cc, lines 17-139) drives four collaborators that live
  outside the file: the input iterator, the environment (file creation and deletion),
  the table writer (\<^verbatim>\<open>TableBuilder\<close>) with the file handle below it, and the table
  cache that re-opens the finished file. The driver is embedded as a function that
  passes a \<open>world\<close> along: the descriptor \<^verbatim>\<open>*meta\<close>, the list of calls made on the
  collaborators so far, and the names of the files on disk. What a collaborator answers
  is a parameter of the model (the record \<open>Collaborators\<close>).
\<close>

subsection \<open>Data\<close>

text \<open>\<^verbatim>\<open>Status\<close>: either ok, or an error carrying its message.\<close>

datatype Status = OK | NotOK string

text \<open>
  \<^verbatim>\<open>SequenceNumber\<close>, \<^verbatim>\<open>FileMetaData::number\<close> and \<^verbatim>\<open>FileMetaData::file_size\<close>
  are \<^verbatim>\<open>uint64_t\<close>.
\<close>

type_synonym SequenceNumber = "64 word"

datatype ValueType = kTypeDeletion | kTypeValue

text \<open>
  Modelled from the spec: the internal key format (db/dbformat.h, not among the sources).
  The spec's data model: an internal key is a user key plus a version tag, the tag being a
  sequence number and an operation kind (put or delete). An internal key is kept in its
  parsed form, so that \<^verbatim>\<open>ParseInternalKey\<close> reads the three fields off and
  \<^verbatim>\<open>InternalKey::DecodeFrom\<close> stores the key as it is.
\<close>

record ParsedInternalKey =
  user_key :: string
  sequence :: SequenceNumber
  vtype :: ValueType

text \<open>One position of the input iterator: \<^verbatim>\<open>iter->key()\<close> and \<^verbatim>\<open>iter->value()\<close>.\<close>

type_synonym entry = "ParsedInternalKey \<times> string"

text \<open>
  The input iterator: the entries it yields between \<^verbatim>\<open>SeekToFirst\<close> and the first
  position that is not \<^verbatim>\<open>Valid\<close>, and what \<^verbatim>\<open>iter->status()\<close> answers afterwards.
\<close>

record Iterator =
  entries :: "entry list"
  status :: Status

text \<open>
  \<^verbatim>\<open>FileMetaData\<close>; an \<^verbatim>\<open>InternalKey\<close> that was never assigned is \<open>None\<close>.
\<close>

record FileMetaData =
  number :: "64 word"
  file_size :: "64 word"
  smallest :: "ParsedInternalKey option"
  largest :: "ParsedInternalKey option"

text \<open>The three fields of \<^verbatim>\<open>Options\<close> that the driver reads.\<close>

record Options =
  purge_redundant_kvs_while_flush :: bool
  disableDataSync :: bool
  use_fsync :: bool

text \<open>
  The calls the driver makes on its collaborators, in the order it makes them.
  \<open>DeleteBuilder\<close> is \<^verbatim>\<open>delete builder\<close> (line 104).
\<close>

datatype call =
    NewWritableFile string
  | Add ParsedInternalKey string
  | Finish
  | Abandon
  | DeleteBuilder
  | Fsync
  | Sync
  | Close
  | NewIterator "64 word" "64 word"
  | DeleteFile string

text \<open>
  What the collaborators answer. \<^verbatim>\<open>TableBuilder::Add\<close> returns nothing, so the
  driver sees a writer's error only in what \<^verbatim>\<open>Finish\<close> returns; \<^verbatim>\<open>Finish\<close> and
  \<^verbatim>\<open>FileSize\<close> may depend on the entries added before. \<^verbatim>\<open>TableFileName\<close> is
  db/filename.h's, not among the sources.
\<close>

record Collaborators =
  TableFileName :: "string \<Rightarrow> 64 word \<Rightarrow> string"
  env_NewWritableFile :: "string \<Rightarrow> Status"
  builder_Finish :: "entry list \<Rightarrow> Status"
  builder_FileSize :: "entry list \<Rightarrow> 64 word"
  file_Fsync :: Status
  file_Sync :: Status
  file_Close :: Status
  table_cache_NewIterator :: "64 word \<Rightarrow> 64 word \<Rightarrow> Status"

record world =
  meta :: FileMetaData
  calls :: "call list"
  disk :: "string set"

text \<open>
  How a call of \<^verbatim>\<open>BuildTable\<close> ends: an \<^verbatim>\<open>assert\<close> fails and the process stops where
  it is, or the function returns a \<^verbatim>\<open>Status\<close>.
\<close>

datatype outcome = AssertionFailed | Returned Status

subsection \<open>The driver\<close>

definition emit :: "call \<Rightarrow> world \<Rightarrow> world" where
  "emit c w = w\<lparr>calls := calls w @ [c]\<rparr>"

text \<open>The entries handed to \<^verbatim>\<open>builder->Add\<close>, read off the calls.\<close>

fun adds :: "call list \<Rightarrow> entry list" where
  "adds [] = []"
| "adds (Add k v # cs) = (k, v) # adds cs"
| "adds (c # cs) = adds cs"

text \<open>Lines 33-36: the purge decision, taken from the options and the two sequence numbers.\<close>

definition purge_decision :: "Options \<Rightarrow> SequenceNumber \<Rightarrow> SequenceNumber \<Rightarrow> bool" where
  "purge_decision options newest_snapshot earliest_seqno_in_memtable =
     (if earliest_seqno_in_memtable \<le> newest_snapshot then False
      else purge_redundant_kvs_while_flush options)"

text \<open>
  Lines 62-81: the loop of the purge branch, with the pending entry
  (\<^verbatim>\<open>prev_key\<close>, \<^verbatim>\<open>prev_value\<close>, \<^verbatim>\<open>prev_ikey\<close>) as an argument. \<open>None\<close>: one of
  the two assertions of the loop body failed. \<^verbatim>\<open>Compare\<close> returns an \<^verbatim>\<open>int\<close>, and
  the branch is taken when it is not zero.
\<close>

fun purge_loop ::
  "(string \<Rightarrow> string \<Rightarrow> int) \<Rightarrow> SequenceNumber \<Rightarrow> entry \<Rightarrow> entry list \<Rightarrow> world
     \<Rightarrow> entry option \<times> world" where
  "purge_loop user_comparator earliest prev [] w = (Some prev, w)"
| "purge_loop user_comparator earliest prev (this # rest) w =
     (if \<not> earliest \<le> sequence (fst this) then (None, w)
      else if user_comparator (user_key (fst prev)) (user_key (fst this)) \<noteq> 0
      then purge_loop user_comparator earliest this rest (emit (Add (fst prev) (snd prev)) w)
      else if \<not> sequence (fst this) < sequence (fst prev) then (None, w)
      else purge_loop user_comparator earliest prev rest w)"

text \<open>Lines 52-84: the purge branch. \<open>False\<close>: an assertion failed.\<close>

definition purge_pass ::
  "(string \<Rightarrow> string \<Rightarrow> int) \<Rightarrow> SequenceNumber \<Rightarrow> entry \<Rightarrow> entry list \<Rightarrow> world
     \<Rightarrow> bool \<times> world" where
  "purge_pass user_comparator earliest first rest w =
     (if \<not> earliest \<le> sequence (fst first) then (False, w)
      else case purge_loop user_comparator earliest first rest w of
        (None, w') \<Rightarrow> (False, w')
      | (Some prev, w') \<Rightarrow>
          (True, (emit (Add (fst prev) (snd prev)) w')
                   \<lparr>meta := (meta (emit (Add (fst prev) (snd prev)) w'))
                      \<lparr>largest := Some (fst prev)\<rparr>\<rparr>))"

text \<open>Lines 87-91: the loop of the other branch.\<close>

fun copy_loop :: "entry list \<Rightarrow> world \<Rightarrow> world" where
  "copy_loop [] w = w"
| "copy_loop (this # rest) w =
     copy_loop rest (emit (Add (fst this) (snd this)) (w\<lparr>meta := (meta w)\<lparr>largest := Some (fst this)\<rparr>\<rparr>))"

text \<open>
  Lines 95-104: finish or abandon the writer, then delete it. \<open>None\<close>: the assertion
  of line 99 failed.
\<close>

definition finish_stage :: "Collaborators \<Rightarrow> Status \<Rightarrow> world \<Rightarrow> Status option \<times> world" where
  "finish_stage c s w =
     (if s = OK then
        (let s' = builder_Finish c (adds (calls w));
             w' = emit Finish w
         in if s' = OK then
              (let w'' = w'\<lparr>meta := (meta w')\<lparr>file_size := builder_FileSize c (adds (calls w))\<rparr>\<rparr>
               in if 0 < file_size (meta w'') then (Some s', emit DeleteBuilder w'')
                  else (None, w''))
            else (Some s', emit DeleteBuilder w'))
      else (Some s, emit DeleteBuilder (emit Abandon w)))"

text \<open>Lines 107-113.\<close>

definition sync_stage :: "Collaborators \<Rightarrow> Options \<Rightarrow> Status \<Rightarrow> world \<Rightarrow> Status \<times> world" where
  "sync_stage c options s w =
     (if s = OK \<and> \<not> disableDataSync options then
        (if use_fsync options then (file_Fsync c, emit Fsync w)
         else (file_Sync c, emit Sync w))
      else (s, w))"

text \<open>Lines 114-116.\<close>

definition close_stage :: "Collaborators \<Rightarrow> Status \<Rightarrow> world \<Rightarrow> Status \<times> world" where
  "close_stage c s w = (if s = OK then (file_Close c, emit Close w) else (s, w))"

text \<open>Lines 118-125.\<close>

definition verify_stage :: "Collaborators \<Rightarrow> Status \<Rightarrow> world \<Rightarrow> Status \<times> world" where
  "verify_stage c s w =
     (if s = OK then
        (table_cache_NewIterator c (number (meta w)) (file_size (meta w)),
         emit (NewIterator (number (meta w)) (file_size (meta w))) w)
      else (s, w))"

text \<open>
  Lines 128-138. Modelled from the spec: the environment's \<^verbatim>\<open>DeleteFile\<close>
  (leveldb/env.h, not among the sources) deletes a file by name; the driver ignores what
  it returns.
\<close>

definition epilogue :: "Iterator \<Rightarrow> string \<Rightarrow> Status \<Rightarrow> world \<Rightarrow> outcome \<times> world" where
  "epilogue iter fname s w =
     (let s' = (if status iter \<noteq> OK then status iter else s)
      in if s' = OK \<and> 0 < file_size (meta w) then (Returned s', w)
         else (Returned s', (emit (DeleteFile fname) w)\<lparr>disk := disk w - {fname}\<rparr>))"

text \<open>Lines 94-138, from the end of the pass on.\<close>

definition after_pass ::
  "Collaborators \<Rightarrow> Options \<Rightarrow> Iterator \<Rightarrow> string \<Rightarrow> Status \<Rightarrow> world \<Rightarrow> outcome \<times> world" where
  "after_pass c options iter fname s w =
     (case finish_stage c s w of
        (None, w1) \<Rightarrow> (AssertionFailed, w1)
      | (Some s1, w1) \<Rightarrow>
          (let (s2, w2) = sync_stage c options s1 w1;
               (s3, w3) = close_stage c s2 w2;
               (s4, w4) = verify_stage c s3 w3
           in epilogue iter fname s4 w4))"

text \<open>
  Lines 26-139. \<^verbatim>\<open>meta\<close> and \<open>disk0\<close> are the descriptor and the files on disk when
  the call starts. Modelled from the spec: the environment's \<^verbatim>\<open>NewWritableFile\<close>
  (leveldb/env.h, not among the sources) creates a writable file by name; when it fails
  the disk is as before.
\<close>

definition BuildTable ::
  "string \<Rightarrow> Collaborators \<Rightarrow> Options \<Rightarrow> Iterator \<Rightarrow> FileMetaData
     \<Rightarrow> (string \<Rightarrow> string \<Rightarrow> int) \<Rightarrow> SequenceNumber \<Rightarrow> SequenceNumber \<Rightarrow> string set
     \<Rightarrow> outcome \<times> world" where
  "BuildTable dbname c options iter meta0 user_comparator newest_snapshot
       earliest_seqno_in_memtable disk0 =
     (let w0 = \<lparr>meta = meta0\<lparr>file_size := 0\<rparr>, calls = [], disk = disk0\<rparr>;
          purge = purge_decision options newest_snapshot earliest_seqno_in_memtable;
          fname = TableFileName c dbname (number meta0)
      in case entries iter of
           [] \<Rightarrow> epilogue iter fname OK w0
         | first # rest \<Rightarrow>
             (let s = env_NewWritableFile c fname;
                  w1 = emit (NewWritableFile fname) w0
              in if s \<noteq> OK then (Returned s, w1)
                 else
                   (let w2 = w1\<lparr>disk := insert fname (disk w1)\<rparr>;
                        w3 = w2\<lparr>meta := (meta w2)\<lparr>smallest := Some (fst first)\<rparr>\<rparr>
                    in if purge then
                         (case purge_pass user_comparator earliest_seqno_in_memtable first rest w3 of
                            (False, w4) \<Rightarrow> (AssertionFailed, w4)
                          | (True, w4) \<Rightarrow> after_pass c options iter fname s w4)
                       else after_pass c options iter fname s (copy_loop (first # rest) w3))))"

subsection \<open>Notions of the specification\<close>

text \<open>The call that hands one entry to the table writer.\<close>

abbreviation add_call :: "entry \<Rightarrow> call" where
  "add_call e \<equiv> Add (fst e) (snd e)"

text \<open>
  The world when the pass begins (line 51): the file has been created and \<^verbatim>\<open>smallest\<close>
  has been set from the first key (lines 41-49).
\<close>

definition start_world :: "FileMetaData \<Rightarrow> string set \<Rightarrow> string \<Rightarrow> entry \<Rightarrow> world" where
  "start_world meta0 disk0 fname first =
     \<lparr>meta = meta0\<lparr>file_size := 0, smallest := Some (fst first)\<rparr>,
      calls = [NewWritableFile fname], disk = insert fname disk0\<rparr>"

text \<open>
  The maximal runs of consecutive entries that share a user key: two neighbours are in the
  same run when the user comparator finds their user keys equal.
\<close>

fun runs :: "(string \<Rightarrow> string \<Rightarrow> int) \<Rightarrow> entry list \<Rightarrow> entry list list" where
  "runs cmp [] = []"
| "runs cmp [e] = [[e]]"
| "runs cmp (e # e' # es) =
     (if cmp (user_key (fst e)) (user_key (fst e')) = 0
      then (e # hd (runs cmp (e' # es))) # tl (runs cmp (e' # es))
      else [e] # runs cmp (e' # es))"

text \<open>
  A sorted source (the spec's ordering invariant): from one entry to the next the user key
  ascends, or it stays the same and the sequence number strictly descends.
\<close>

fun sorted_source :: "(string \<Rightarrow> string \<Rightarrow> int) \<Rightarrow> entry list \<Rightarrow> bool" where
  "sorted_source cmp [] = True"
| "sorted_source cmp [e] = True"
| "sorted_source cmp (e # e' # es) =
     ((cmp (user_key (fst e)) (user_key (fst e')) < 0
       \<or> (cmp (user_key (fst e)) (user_key (fst e')) = 0 \<and> sequence (fst e') < sequence (fst e)))
      \<and> sorted_source cmp (e' # es))"

text \<open>
  On the user keys of the given entries, comparing equal is symmetric and transitive, as
  it is for every comparator that is an ordering.
\<close>

definition same_key_equiv :: "(string \<Rightarrow> string \<Rightarrow> int) \<Rightarrow> entry list \<Rightarrow> bool" where
  "same_key_equiv cmp es =
     (\<forall>a\<in>set es. \<forall>b\<in>set es. \<forall>d\<in>set es.
        (cmp (user_key (fst a)) (user_key (fst b)) = 0 \<longrightarrow> cmp (user_key (fst b)) (user_key (fst a)) = 0)
      \<and> (cmp (user_key (fst a)) (user_key (fst b)) = 0 \<and> cmp (user_key (fst b)) (user_key (fst d)) = 0
           \<longrightarrow> cmp (user_key (fst a)) (user_key (fst d)) = 0))"

text \<open>Lines 108-112: which sync the options select, and what the file handle answers to it.\<close>

definition sync_call :: "Options \<Rightarrow> call" where
  "sync_call options = (if use_fsync options then Fsync else Sync)"

definition sync_result :: "Collaborators \<Rightarrow> Options \<Rightarrow> Status" where
  "sync_result c options = (if use_fsync options then file_Fsync c else file_Sync c)"

text \<open>
  A stage after the creation of the output file fails: for the entries \<open>written\<close> and
  the file number \<open>n\<close>, the writer's \<^verbatim>\<open>Finish\<close>, the sync that the options select
  (when syncing is not disabled), the \<^verbatim>\<open>Close\<close>, the verification through the table
  cache, or the source's deferred status answers with an error.
\<close>

definition stage_failed ::
  "Collaborators \<Rightarrow> Options \<Rightarrow> Iterator \<Rightarrow> entry list \<Rightarrow> 64 word \<Rightarrow> bool" where
  "stage_failed c options iter written n =
     (builder_Finish c written \<noteq> OK
      \<or> (\<not> disableDataSync options \<and> sync_result c options \<noteq> OK)
      \<or> file_Close c \<noteq> OK
      \<or> table_cache_NewIterator c n (builder_FileSize c written) \<noteq> OK
      \<or> status iter \<noteq> OK)"

subsection \<open>Concrete inputs\<close>

text \<open>
  The byte-wise comparator (the default user comparator): the sign of the first
  difference, a proper prefix being the smaller.
\<close>

fun BytewiseComparator :: "string \<Rightarrow> string \<Rightarrow> int" where
  "BytewiseComparator [] [] = 0"
| "BytewiseComparator [] (y # ys) = - 1"
| "BytewiseComparator (x # xs) [] = 1"
| "BytewiseComparator (x # xs) (y # ys) =
     (if (of_char x :: nat) < of_char y then - 1
      else if (of_char y :: nat) < of_char x then 1
      else BytewiseComparator xs ys)"

definition ex_key :: "string \<Rightarrow> SequenceNumber \<Rightarrow> ParsedInternalKey" where
  "ex_key u n = \<lparr>user_key = u, sequence = n, vtype = kTypeValue\<rparr>"

text \<open>The input of the spec's examples 1 and 2.\<close>

definition ex_entries :: "entry list" where
  "ex_entries = [(ex_key ''a'' 5, ''v1''), (ex_key ''a'' 3, ''v0''), (ex_key ''b'' 4, ''v2'')]"

definition ex_iter :: Iterator where
  "ex_iter = \<lparr>entries = ex_entries, status = OK\<rparr>"

text \<open>Collaborators that never fail; the finished table has 100 bytes.\<close>

definition ex_collab :: Collaborators where
  "ex_collab =
     \<lparr>TableFileName = (\<lambda>dbname n. dbname @ ''/7.sst''),
      env_NewWritableFile = (\<lambda>fname. OK),
      builder_Finish = (\<lambda>es. OK),
      builder_FileSize = (\<lambda>es. 100),
      file_Fsync = OK,
      file_Sync = OK,
      file_Close = OK,
      table_cache_NewIterator = (\<lambda>n size. OK)\<rparr>"

definition ex_options :: Options where
  "ex_options = \<lparr>purge_redundant_kvs_while_flush = True, disableDataSync = False, use_fsync = False\<rparr>"

text \<open>A descriptor in its zero state, for file number 7.\<close>

definition ex_meta :: FileMetaData where
  "ex_meta = \<lparr>number = 7, file_size = 0, smallest = None, largest = None\<rparr>"

section \<open>Properties\<close>

subsection \<open>The world and the calls\<close>

lemmas stage_defs =
  finish_stage_def sync_stage_def close_stage_def verify_stage_def epilogue_def

lemma calls_emit [simp]: "calls (emit c w) = calls w @ [c]"
  by (simp add: emit_def)

lemma meta_emit [simp]: "meta (emit c w) = meta w"
  by (simp add: emit_def)

lemma disk_emit [simp]: "disk (emit c w) = disk w"
  by (simp add: emit_def)

lemma adds_append [simp]: "adds (xs @ ys) = adds xs @ adds ys"
  by (induction xs rule: adds.induct) simp_all

lemma adds_map_add [simp]: "adds (map add_call es) = es"
  by (induction es) simp_all

lemma adds_map_add_comp [simp]: "adds (map (add_call \<circ> f) xs) = map f xs"
  by (induction xs) simp_all

lemma map_butlast_last: "xs \<noteq> [] \<Longrightarrow> map f (butlast xs) @ [f (last xs)] = map f xs"
  by (induction xs) auto

lemma calls_copy_loop: "calls (copy_loop es w) = calls w @ map add_call es"
  by (induction es arbitrary: w) simp_all

lemma disk_copy_loop [simp]: "disk (copy_loop es w) = disk w"
  by (induction es arbitrary: w) simp_all

lemma meta_copy_loop:
  "meta (copy_loop es w) = (if es = [] then meta w else (meta w)\<lparr>largest := Some (fst (last es))\<rparr>)"
  by (induction es arbitrary: w) simp_all

lemma BuildTable_empty:
  "entries iter = [] \<Longrightarrow>
   BuildTable dbname c options iter meta0 cmp newest earliest disk0 =
     epilogue iter (TableFileName c dbname (number meta0)) OK
       \<lparr>meta = meta0\<lparr>file_size := 0\<rparr>, calls = [], disk = disk0\<rparr>"
  by (simp add: BuildTable_def Let_def)

lemma BuildTable_create_failed:
  "entries iter \<noteq> [] \<Longrightarrow> env_NewWritableFile c (TableFileName c dbname (number meta0)) \<noteq> OK \<Longrightarrow>
   BuildTable dbname c options iter meta0 cmp newest earliest disk0 =
     (Returned (env_NewWritableFile c (TableFileName c dbname (number meta0))),
      \<lparr>meta = meta0\<lparr>file_size := 0\<rparr>,
       calls = [NewWritableFile (TableFileName c dbname (number meta0))], disk = disk0\<rparr>)"
  by (cases "entries iter") (simp_all add: BuildTable_def Let_def emit_def)

lemma BuildTable_copy:
  "entries iter \<noteq> [] \<Longrightarrow> env_NewWritableFile c (TableFileName c dbname (number meta0)) = OK \<Longrightarrow>
   \<not> purge_decision options newest earliest \<Longrightarrow>
   BuildTable dbname c options iter meta0 cmp newest earliest disk0 =
     after_pass c options iter (TableFileName c dbname (number meta0)) OK
       (copy_loop (entries iter)
          (start_world meta0 disk0 (TableFileName c dbname (number meta0)) (hd (entries iter))))"
  by (cases "entries iter") (simp_all add: BuildTable_def Let_def emit_def start_world_def)

lemma BuildTable_purge:
  "entries iter \<noteq> [] \<Longrightarrow> env_NewWritableFile c (TableFileName c dbname (number meta0)) = OK \<Longrightarrow>
   purge_decision options newest earliest \<Longrightarrow>
   BuildTable dbname c options iter meta0 cmp newest earliest disk0 =
     (case purge_pass cmp earliest (hd (entries iter)) (tl (entries iter))
             (start_world meta0 disk0 (TableFileName c dbname (number meta0)) (hd (entries iter))) of
        (False, w4) \<Rightarrow> (AssertionFailed, w4)
      | (True, w4) \<Rightarrow> after_pass c options iter (TableFileName c dbname (number meta0)) OK w4)"
  by (cases "entries iter")
    (auto simp: BuildTable_def Let_def emit_def start_world_def split: prod.splits bool.splits)

lemma after_pass_frame:
  assumes "after_pass c options iter fname s w = (out, w')"
  shows "smallest (meta w') = smallest (meta w)" and "largest (meta w') = largest (meta w)"
    and "number (meta w') = number (meta w)" and "adds (calls w') = adds (calls w)"
  using assms
  by (auto simp: after_pass_def stage_defs Let_def split: if_splits)

lemma after_pass_shape:
  assumes "after_pass c options iter fname OK w = (out, w')"
  shows "\<exists>tail. calls w' = calls w @ Finish # tail"
  using assms
  by (auto simp: after_pass_def stage_defs Let_def split: if_splits)

subsection \<open>Runs and the purge loop\<close>

lemma runs_Cons: "runs cmp (e # es) \<noteq> [] \<and> hd (runs cmp (e # es)) \<noteq> [] \<and> hd (hd (runs cmp (e # es))) = e"
  by (induction cmp "e # es" arbitrary: e es rule: runs.induct) simp_all

lemma runs_nonempty: "r \<in> set (runs cmp es) \<Longrightarrow> r \<noteq> []"
proof (induction cmp es arbitrary: r rule: runs.induct)
  case (3 cmp e e' es)
  then show ?case
    using runs_Cons [of cmp e' es]
    by (cases "runs cmp (e' # es)") (auto split: if_splits)
qed simp_all

lemma concat_runs: "concat (runs cmp es) = es"
proof (induction cmp es rule: runs.induct)
  case (3 cmp e e' es)
  then show ?case
    using runs_Cons [of cmp e' es]
    by (cases "runs cmp (e' # es)") (auto split: if_splits)
qed simp_all


text \<open>
  \<open>runs\<close> cuts the source into its maximal runs: within a run every entry shares its
  user key with the next one, and where one run ends and the next begins the user keys
  differ.
\<close>

lemma runs_share_key:
  "r \<in> set (runs cmp es) \<Longrightarrow>
     successively (\<lambda>a b. cmp (user_key (fst a)) (user_key (fst b)) = 0) r"
proof (induction cmp es arbitrary: r rule: runs.induct)
  case (3 cmp e e' es)
  let ?rs = "runs cmp (e' # es)"
  from runs_Cons [of cmp e' es] obtain r' rs' where rs: "?rs = r' # rs'" and r': "r' \<noteq> []" "hd r' = e'"
    by (cases ?rs) auto
  show ?case
  proof (cases "cmp (user_key (fst e)) (user_key (fst e')) = 0")
    case True
    with "3.prems" rs have "r = e # r' \<or> r \<in> set rs'" by auto
    then show ?thesis
    proof
      assume r: "r = e # r'"
      have "successively (\<lambda>a b. cmp (user_key (fst a)) (user_key (fst b)) = 0) r'"
        using "3.IH"(1) [OF True, of r'] rs by simp
      with True r r' show ?thesis
        by (simp add: successively_Cons)
    next
      assume "r \<in> set rs'"
      with "3.IH"(1) [OF True, of r] rs show ?thesis by simp
    qed
  next
    case False
    with "3.prems" have "r = [e] \<or> r \<in> set ?rs" by auto
    then show ?thesis
    proof
      assume "r = [e]" then show ?thesis by simp
    next
      assume "r \<in> set ?rs"
      with "3.IH"(3) [OF False, of r] show ?thesis by simp
    qed
  qed
qed simp_all

lemma runs_maximal:
  "successively (\<lambda>r r'. cmp (user_key (fst (last r))) (user_key (fst (hd r'))) \<noteq> 0) (runs cmp es)"
proof (induction cmp es rule: runs.induct)
  case (3 cmp e e' es)
  let ?rs = "runs cmp (e' # es)"
  from runs_Cons [of cmp e' es] obtain r' rs' where rs: "?rs = r' # rs'" and r': "r' \<noteq> []" "hd r' = e'"
    by (cases ?rs) auto
  show ?case
  proof (cases "cmp (user_key (fst e)) (user_key (fst e')) = 0")
    case True
    with "3.IH"(1) rs r' show ?thesis
      by (simp add: successively_Cons)
  next
    case False
    with "3.IH"(3) rs r' show ?thesis
      by (simp add: successively_Cons)
  qed
qed simp_all

lemma runs_head_newest:
  "sorted_source cmp es \<Longrightarrow> r \<in> set (runs cmp es) \<Longrightarrow> x \<in> set (tl r)
     \<Longrightarrow> sequence (fst x) < sequence (fst (hd r))"
proof (induction cmp es arbitrary: r x rule: runs.induct)
  case (3 cmp e e' es)
  let ?rs = "runs cmp (e' # es)"
  from runs_Cons [of cmp e' es] obtain r' rs' where rs: "?rs = r' # rs'" and r': "r' \<noteq> []" "hd r' = e'"
    by (cases ?rs) auto
  from "3.prems"(1) have srt: "sorted_source cmp (e' # es)" by simp
  show ?case
  proof (cases "cmp (user_key (fst e)) (user_key (fst e')) = 0")
    case True
    with "3.prems"(1) have lt: "sequence (fst e') < sequence (fst e)" by simp
    from True "3.prems"(2) rs have "r = e # r' \<or> r \<in> set rs'" by auto
    then show ?thesis
    proof
      assume r: "r = e # r'"
      with "3.prems"(3) have "x \<in> set r'" by simp
      then have "x = e' \<or> x \<in> set (tl r')"
        using r' by (cases r') auto
      then show ?thesis
      proof
        assume "x = e'" with lt r show ?thesis by simp
      next
        assume "x \<in> set (tl r')"
        with "3.IH"(1) [OF True srt, of r' x] rs r' have "sequence (fst x) < sequence (fst e')"
          by simp
        with lt r show ?thesis by simp
      qed
    next
      assume "r \<in> set rs'"
      with "3.IH"(1) [OF True srt, of r x] rs "3.prems"(3) show ?thesis by simp
    qed
  next
    case False
    with "3.prems"(2) have "r = [e] \<or> r \<in> set ?rs" by auto
    then show ?thesis
    proof
      assume "r = [e]" with "3.prems"(3) show ?thesis by simp
    next
      assume "r \<in> set ?rs"
      with "3.IH"(3) [OF False srt, of r x] "3.prems"(3) show ?thesis by simp
    qed
  qed
qed simp_all

lemma same_key_equiv_subset:
  "same_key_equiv cmp xs \<Longrightarrow> set ys \<subseteq> set xs \<Longrightarrow> same_key_equiv cmp ys"
  unfolding same_key_equiv_def by (meson subsetD)

lemma same_key_equiv_sym:
  "same_key_equiv cmp xs \<Longrightarrow> a \<in> set xs \<Longrightarrow> b \<in> set xs
     \<Longrightarrow> cmp (user_key (fst a)) (user_key (fst b)) = 0 \<Longrightarrow> cmp (user_key (fst b)) (user_key (fst a)) = 0"
  unfolding same_key_equiv_def by blast

lemma same_key_equiv_trans:
  "same_key_equiv cmp xs \<Longrightarrow> a \<in> set xs \<Longrightarrow> b \<in> set xs \<Longrightarrow> d \<in> set xs
     \<Longrightarrow> cmp (user_key (fst a)) (user_key (fst b)) = 0
     \<Longrightarrow> cmp (user_key (fst b)) (user_key (fst d)) = 0 \<Longrightarrow> cmp (user_key (fst a)) (user_key (fst d)) = 0"
  unfolding same_key_equiv_def by blast

lemma purge_loop_runs:
  assumes "same_key_equiv cmp (p # es)"
    and "\<forall>x\<in>set es. (cmp (user_key (fst p)) (user_key (fst x)) = 0)
                      = (cmp (user_key (fst l)) (user_key (fst x)) = 0)"
    and "sequence (fst l) \<le> sequence (fst p)"
    and "sorted_source cmp (l # es)"
    and "\<forall>e\<in>set es. earliest \<le> sequence (fst e)"
  shows "purge_loop cmp earliest p es w =
           (Some (last (p # map hd (tl (runs cmp (l # es))))),
            w\<lparr>calls := calls w @ map add_call (butlast (p # map hd (tl (runs cmp (l # es)))))\<rparr>)"
  using assms
proof (induction es arbitrary: p l w)
  case Nil
  then show ?case by simp
next
  case (Cons e es)
  let ?rs = "runs cmp (e # es)"
  have rs: "?rs \<noteq> []" "hd (hd ?rs) = e"
    using runs_Cons [of cmp e es] by simp_all
  then have hds: "e # map hd (tl ?rs) = map hd ?rs"
    by (cases ?rs) simp_all
  have ge: "earliest \<le> sequence (fst e)" and ges: "\<forall>x\<in>set es. earliest \<le> sequence (fst x)"
    using Cons.prems(5) by simp_all
  have srt: "sorted_source cmp (e # es)"
    using Cons.prems(4) by simp
  have iff: "(cmp (user_key (fst p)) (user_key (fst e)) = 0) = (cmp (user_key (fst l)) (user_key (fst e)) = 0)"
    using Cons.prems(2) by simp
  show ?case
  proof (cases "cmp (user_key (fst l)) (user_key (fst e)) = 0")
    case True
    then have pe: "cmp (user_key (fst p)) (user_key (fst e)) = 0"
      using iff by simp
    have "sequence (fst e) < sequence (fst l)"
      using Cons.prems(4) True by simp
    then have lt: "sequence (fst e) < sequence (fst p)"
      using Cons.prems(3) by simp
    have eq: "same_key_equiv cmp (p # es)"
      by (rule same_key_equiv_subset [OF Cons.prems(1)]) auto
    have inv: "\<forall>x\<in>set es. (cmp (user_key (fst p)) (user_key (fst x)) = 0)
                      = (cmp (user_key (fst e)) (user_key (fst x)) = 0)"
    proof
      fix x assume x: "x \<in> set es"
      have ep: "cmp (user_key (fst e)) (user_key (fst p)) = 0"
        by (rule same_key_equiv_sym [OF Cons.prems(1) _ _ pe]) simp_all
      show "(cmp (user_key (fst p)) (user_key (fst x)) = 0)
                      = (cmp (user_key (fst e)) (user_key (fst x)) = 0)"
      proof
        assume "cmp (user_key (fst p)) (user_key (fst x)) = 0"
        with same_key_equiv_trans [OF Cons.prems(1) _ _ _ ep, of x] x
        show "cmp (user_key (fst e)) (user_key (fst x)) = 0" by simp
      next
        assume "cmp (user_key (fst e)) (user_key (fst x)) = 0"
        with same_key_equiv_trans [OF Cons.prems(1) _ _ _ pe, of x] x
        show "cmp (user_key (fst p)) (user_key (fst x)) = 0" by simp
      qed
    qed
    have "purge_loop cmp earliest p (e # es) w = purge_loop cmp earliest p es w"
      using ge pe lt by simp
    also have "\<dots> = (Some (last (p # map hd (tl ?rs))),
            w\<lparr>calls := calls w @ map add_call (butlast (p # map hd (tl ?rs)))\<rparr>)"
      using lt by (intro Cons.IH [OF eq inv _ srt ges]) simp
    finally show ?thesis
      using True by simp
  next
    case False
    then have pe: "cmp (user_key (fst p)) (user_key (fst e)) \<noteq> 0"
      using iff by simp
    have eq: "same_key_equiv cmp (e # es)"
      by (rule same_key_equiv_subset [OF Cons.prems(1)]) auto
    have "purge_loop cmp earliest p (e # es) w = purge_loop cmp earliest e es (emit (add_call p) w)"
      using ge pe by simp
    also have "\<dots> = (Some (last (e # map hd (tl ?rs))),
            (emit (add_call p) w)\<lparr>calls := calls (emit (add_call p) w)
                @ map add_call (butlast (e # map hd (tl ?rs)))\<rparr>)"
      by (intro Cons.IH [OF eq _ _ srt ges]) simp_all
    finally show ?thesis
      using False rs by (simp add: hds emit_def)
  qed
qed

subsection \<open>The pass in general\<close>


lemma purge_loop_general:
  "purge_loop cmp earliest p es w = (r, w') \<Longrightarrow>
     meta w' = meta w \<and> disk w' = disk w
     \<and> (\<exists>ws. calls w' = calls w @ map add_call ws \<and> (\<forall>q. r = Some q \<longrightarrow> hd (ws @ [q]) = p))"
proof (induction es arbitrary: p w)
  case Nil
  then show ?case by auto
next
  case (Cons e es)
  show ?case
  proof (cases "earliest \<le> sequence (fst e) \<and> cmp (user_key (fst p)) (user_key (fst e)) \<noteq> 0")
    case True
    with Cons.prems have "purge_loop cmp earliest e es (emit (add_call p) w) = (r, w')"
      by simp
    from Cons.IH [OF this] obtain ws where
      ws: "meta w' = meta w" "disk w' = disk w" "calls w' = calls w @ map add_call (p # ws)"
      by auto
    have "\<forall>q. r = Some q \<longrightarrow> hd ((p # ws) @ [q]) = p"
      by simp
    with ws show ?thesis by blast
  next
    case False
    show ?thesis
    proof (cases "earliest \<le> sequence (fst e) \<and> sequence (fst e) < sequence (fst p)")
      case True
      with False Cons.prems have "purge_loop cmp earliest p es w = (r, w')"
        by simp
      from Cons.IH [OF this] show ?thesis .
    next
      case no: False
      with False Cons.prems have "r = None" "w' = w"
        by (auto split: if_splits)
      then show ?thesis by simp
    qed
  qed
qed

lemma purge_pass_general:
  assumes "purge_pass cmp earliest first rest w = (ok, w')"
  shows "disk w' = disk w
     \<and> (\<exists>ws. calls w' = calls w @ map add_call ws
           \<and> (if ok then ws \<noteq> [] \<and> hd ws = first
                       \<and> meta w' = (meta w)\<lparr>largest := Some (fst (last ws))\<rparr>
               else meta w' = meta w))"
proof (cases "earliest \<le> sequence (fst first)")
  case False
  with assms have "ok = False" "w' = w"
    by (simp_all add: purge_pass_def)
  then show ?thesis by simp
next
  case True
  obtain r w1 where l: "purge_loop cmp earliest first rest w = (r, w1)"
    by (cases "purge_loop cmp earliest first rest w")
  from purge_loop_general [OF l] obtain ws where
    ws: "meta w1 = meta w" "disk w1 = disk w" "calls w1 = calls w @ map add_call ws"
      "\<forall>q. r = Some q \<longrightarrow> hd (ws @ [q]) = first"
    by auto
  show ?thesis
  proof (cases r)
    case None
    with assms True l have "ok = False" "w' = w1"
      by (simp_all add: purge_pass_def)
    with ws show ?thesis by auto
  next
    case (Some q)
    with assms True l have ok: "ok = True"
      and w': "w' = (emit (add_call q) w1)\<lparr>meta := (meta w1)\<lparr>largest := Some (fst q)\<rparr>\<rparr>"
      by (simp_all add: purge_pass_def)
    have "calls w' = calls w @ map add_call (ws @ [q])"
      using w' ws(3) by simp
    moreover have "hd (ws @ [q]) = first"
      using ws(4) Some by simp
    moreover have "meta w' = (meta w)\<lparr>largest := Some (fst (last (ws @ [q])))\<rparr>"
      using w' ws(1) by simp
    moreover have "disk w' = disk w"
      using w' ws(2) by simp
    ultimately show ?thesis
      using ok by (intro conjI exI [of _ "ws @ [q]"]) simp_all
  qed
qed

text \<open>What the pass leaves behind, in either mode, once the file has been created.\<close>

lemma BuildTable_created:
  assumes "entries iter \<noteq> []"
    and "env_NewWritableFile c (TableFileName c dbname (number meta0)) = OK"
  shows "(\<exists>w ws. BuildTable dbname c options iter meta0 cmp newest earliest disk0 = (AssertionFailed, w)
            \<and> calls w = NewWritableFile (TableFileName c dbname (number meta0)) # map add_call ws
            \<and> disk w = insert (TableFileName c dbname (number meta0)) disk0
            \<and> meta w = meta0\<lparr>file_size := 0, smallest := Some (fst (hd (entries iter)))\<rparr>)
       \<or> (\<exists>w4 ws. BuildTable dbname c options iter meta0 cmp newest earliest disk0
               = after_pass c options iter (TableFileName c dbname (number meta0)) OK w4
            \<and> ws \<noteq> [] \<and> hd ws = hd (entries iter)
            \<and> calls w4 = NewWritableFile (TableFileName c dbname (number meta0)) # map add_call ws
            \<and> disk w4 = insert (TableFileName c dbname (number meta0)) disk0
            \<and> meta w4 = meta0\<lparr>file_size := 0, smallest := Some (fst (hd (entries iter))),
                               largest := Some (fst (last ws))\<rparr>)"
proof (cases "purge_decision options newest earliest")
  case False
  let ?f = "TableFileName c dbname (number meta0)"
  let ?w4 = "copy_loop (entries iter) (start_world meta0 disk0 ?f (hd (entries iter)))"
  have "BuildTable dbname c options iter meta0 cmp newest earliest disk0
          = after_pass c options iter ?f OK ?w4"
    using assms False by (rule BuildTable_copy)
  moreover have "calls ?w4 = NewWritableFile ?f # map add_call (entries iter)"
    by (simp add: calls_copy_loop start_world_def)
  moreover have "disk ?w4 = insert ?f disk0"
    by (simp add: start_world_def)
  moreover have "meta ?w4 = meta0\<lparr>file_size := 0, smallest := Some (fst (hd (entries iter))),
                               largest := Some (fst (last (entries iter)))\<rparr>"
    using assms(1) by (simp add: meta_copy_loop start_world_def)
  ultimately show ?thesis
    using assms(1) by blast
next
  case True
  let ?f = "TableFileName c dbname (number meta0)"
  let ?w = "start_world meta0 disk0 ?f (hd (entries iter))"
  obtain ok w4 where p: "purge_pass cmp earliest (hd (entries iter)) (tl (entries iter)) ?w = (ok, w4)"
    by (cases "purge_pass cmp earliest (hd (entries iter)) (tl (entries iter)) ?w")
  from purge_pass_general [OF p] obtain ws where
    ws: "disk w4 = disk ?w" "calls w4 = calls ?w @ map add_call ws"
      "if ok then ws \<noteq> [] \<and> hd ws = hd (entries iter)
                       \<and> meta w4 = (meta ?w)\<lparr>largest := Some (fst (last ws))\<rparr>
               else meta w4 = meta ?w"
    by auto
  have b: "BuildTable dbname c options iter meta0 cmp newest earliest disk0
     = (if ok then after_pass c options iter ?f OK w4 else (AssertionFailed, w4))"
    using BuildTable_purge [OF assms True, of cmp disk0] p by simp
  show ?thesis
  proof (cases ok)
    case True
    with b ws show ?thesis
      by (intro disjI2 exI [of _ w4] exI [of _ ws]) (simp add: start_world_def)
  next
    case False
    with b ws show ?thesis
      by (intro disjI1 exI [of _ w4] exI [of _ ws]) (simp add: start_world_def)
  qed
qed

subsection \<open>After the pass\<close>

lemma sync_stage_options [simp]:
  "sync_stage c (options\<lparr>purge_redundant_kvs_while_flush := b\<rparr>) = sync_stage c options"
  by (intro ext) (simp add: sync_stage_def)

lemma after_pass_options [simp]:
  "after_pass c (options\<lparr>purge_redundant_kvs_while_flush := b\<rparr>) = after_pass c options"
  by (intro ext) (simp add: after_pass_def split: prod.splits option.splits)

lemma purge_decision_below [simp]:
  "earliest \<le> newest \<Longrightarrow> purge_decision options newest earliest = False"
  by (simp add: purge_decision_def)

lemma after_pass_failure:
  assumes "after_pass c options iter f s0 w = (Returned s, w')" and "s \<noteq> OK"
  shows "calls w' \<noteq> []" and "last (calls w') = DeleteFile f" and "f \<notin> disk w'"
  using assms by (auto simp: after_pass_def stage_defs Let_def split: if_splits)

lemma after_pass_deferred:
  assumes "after_pass c options iter f s0 w = (Returned s, w')" and "status iter \<noteq> OK"
  shows "s = status iter"
  using assms by (auto simp: after_pass_def stage_defs Let_def split: if_splits)

lemma after_pass_finish_failed:
  assumes "after_pass c options iter f OK w = (Returned s, w')"
    and "builder_Finish c (adds (calls w)) \<noteq> OK"
  shows "s \<noteq> OK" and "meta w' = meta w"
    and "calls w' = calls w @ [Finish, DeleteBuilder, DeleteFile f]"
  using assms by (auto simp: after_pass_def stage_defs Let_def split: if_splits)

text \<open>The calls and the result when \<^verbatim>\<open>Finish\<close> succeeded and the function returned.\<close>

lemma after_pass_finish_ok:
  assumes "after_pass c options iter f OK w = (Returned s, w')"
    and "builder_Finish c (adds (calls w)) = OK"
  shows "0 < builder_FileSize c (adds (calls w))"
    and "meta w' = (meta w)\<lparr>file_size := builder_FileSize c (adds (calls w))\<rparr>"
    and "calls w' = calls w @ [Finish, DeleteBuilder]
           @ (if disableDataSync options then [] else [sync_call options])
           @ (if disableDataSync options \<or> sync_result c options = OK then [Close] else [])
           @ (if (disableDataSync options \<or> sync_result c options = OK) \<and> file_Close c = OK
              then [NewIterator (number (meta w)) (builder_FileSize c (adds (calls w)))] else [])
           @ (if s = OK then [] else [DeleteFile f])"
    and "\<not> disableDataSync options \<Longrightarrow> sync_result c options \<noteq> OK \<Longrightarrow> s \<noteq> OK"
    and "disableDataSync options \<or> sync_result c options = OK \<Longrightarrow> file_Close c \<noteq> OK \<Longrightarrow> s \<noteq> OK"
    and "disk w' = (if s = OK then disk w else disk w - {f})"
  using assms
  by (auto simp: after_pass_def stage_defs Let_def sync_call_def sync_result_def split: if_splits)

lemma add_calls_filter [simp]:
  "(\<And>k v. \<not> P (Add k v)) \<Longrightarrow> filter P (map add_call ws) = []"
  by (induction ws) simp_all

text \<open>A call that returns returns a failure exactly when one of the stages failed.\<close>

lemma after_pass_fails_iff:
  assumes "after_pass c options iter f OK w = (Returned s, w')"
  shows "(s \<noteq> OK) = stage_failed c options iter (adds (calls w)) (number (meta w))"
  using assms
  by (auto simp: after_pass_def stage_defs Let_def stage_failed_def sync_result_def
      split: if_splits)

subsection \<open>The purge loop, entry by entry\<close>

lemma purge_loop_append:
  "purge_loop cmp earliest p (xs @ ys) w =
     (case purge_loop cmp earliest p xs w of
        (None, w') \<Rightarrow> (None, w')
      | (Some p', w') \<Rightarrow> purge_loop cmp earliest p' ys w')"
  by (induction xs arbitrary: p w) simp_all

lemma after_pass_status:
  "status iter' = status iter \<Longrightarrow> after_pass c options iter' = after_pass c options iter"
  by (intro ext) (simp add: after_pass_def epilogue_def split: prod.split option.split)

section \<open>The claims\<close>


text \<open>
  C1. Take a non-empty sorted source, a comparator whose equality on the source's user
  keys is symmetric and transitive, a snapshot watermark below
  \<^verbatim>\<open>earliest_seqno_in_memtable\<close>, which in turn bounds every entry's sequence number
  from below, the purge flag set, and the output file created. Then the entries handed to
  the table writer are the first entries of the maximal runs of consecutive entries that
  share a user key, one for each run and in the order of the runs; in its run each of
  them has the greatest sequence number, every other entry of the run lying strictly
  below it. \<open>smallest\<close> is the first key written and \<open>largest\<close> the last one.
\<close>

theorem purge_keeps_newest_of_each_run:
  assumes "entries iter \<noteq> []"
    and "sorted_source cmp (entries iter)"
    and "same_key_equiv cmp (entries iter)"
    and "\<forall>e\<in>set (entries iter). earliest \<le> sequence (fst e)"
    and "newest < earliest"
    and "purge_redundant_kvs_while_flush options"
    and "env_NewWritableFile c (TableFileName c dbname (number meta0)) = OK"
  shows "adds (calls (snd (BuildTable dbname c options iter meta0 cmp newest earliest disk0)))
           = map hd (runs cmp (entries iter))
       \<and> concat (runs cmp (entries iter)) = entries iter
       \<and> (\<forall>r\<in>set (runs cmp (entries iter)). r \<noteq> []
             \<and> (\<forall>x\<in>set (tl r). sequence (fst x) < sequence (fst (hd r))))
       \<and> smallest (meta (snd (BuildTable dbname c options iter meta0 cmp newest earliest disk0)))
           = Some (fst (hd (map hd (runs cmp (entries iter)))))
       \<and> largest (meta (snd (BuildTable dbname c options iter meta0 cmp newest earliest disk0)))
           = Some (fst (last (map hd (runs cmp (entries iter)))))"
proof -
  let ?f = "TableFileName c dbname (number meta0)"
  obtain first rest where es: "entries iter = first # rest"
    using assms(1) by (cases "entries iter") auto
  let ?w = "start_world meta0 disk0 ?f first"
  let ?rs = "runs cmp (first # rest)"
  let ?out = "map hd ?rs"
  have rs: "?rs \<noteq> []" "hd (hd ?rs) = first"
    using runs_Cons [of cmp first rest] by simp_all
  then have hds: "first # map hd (tl ?rs) = ?out"
    by (cases ?rs) simp_all
  have eq: "same_key_equiv cmp (first # rest)"
    using assms(3) es by simp
  have ges: "\<forall>x\<in>set rest. earliest \<le> sequence (fst x)" and ge: "earliest \<le> sequence (fst first)"
    using assms(4) es by simp_all
  have srt: "sorted_source cmp (first # rest)"
    using assms(2) es by simp
  have loop: "purge_loop cmp earliest first rest ?w =
      (Some (last ?out), ?w\<lparr>calls := calls ?w @ map add_call (butlast ?out)\<rparr>)"
    using purge_loop_runs [OF eq _ _ srt ges, of ?w] hds by simp
  have out: "?out \<noteq> []"
    using rs by simp
  define w4 where "w4 = (emit (add_call (last ?out)) (?w\<lparr>calls := calls ?w @ map add_call (butlast ?out)\<rparr>))
       \<lparr>meta := (meta ?w)\<lparr>largest := Some (fst (last ?out))\<rparr>\<rparr>"
  have pass: "purge_pass cmp earliest first rest ?w = (True, w4)"
    using ge loop by (simp add: purge_pass_def w4_def)
  have "map add_call (butlast ?out) @ [add_call (last ?out)] = map add_call ?out"
    using out by (rule map_butlast_last)
  then have cw: "calls w4 = NewWritableFile ?f # map add_call ?out"
    by (simp add: w4_def start_world_def)
  have mw: "smallest (meta w4) = Some (fst first)" "largest (meta w4) = Some (fst (last ?out))"
    by (simp_all add: w4_def start_world_def)
  obtain out w' where r: "after_pass c options iter ?f OK w4 = (out, w')"
    by (cases "after_pass c options iter ?f OK w4")
  have "purge_decision options newest earliest"
    using assms(5,6) by (simp add: purge_decision_def)
  then have b: "BuildTable dbname c options iter meta0 cmp newest earliest disk0 = (out, w')"
    using assms(1,7) es pass r by (simp add: BuildTable_purge)
  have first: "hd ?out = first"
    using rs by (simp add: hd_map)
  have runs_ok: "\<forall>r\<in>set ?rs. r \<noteq> [] \<and> (\<forall>x\<in>set (tl r). sequence (fst x) < sequence (fst (hd r)))"
    using runs_nonempty runs_head_newest [OF srt] by blast
  have c1: "adds (calls w') = ?out"
    using after_pass_frame(4) [OF r] cw by simp
  have c2: "smallest (meta w') = Some (fst (hd ?out))"
    using after_pass_frame(1) [OF r] mw(1) first by simp
  have c3: "largest (meta w') = Some (fst (last ?out))"
    using after_pass_frame(2) [OF r] mw(2) by simp
  show ?thesis
    unfolding b es snd_conv using c1 c2 c3 runs_ok concat_runs [of cmp "first # rest"] by blast
qed



theorem purge_keeps_newest_of_each_run_witness:
  "adds (calls (snd (BuildTable ''db'' ex_collab ex_options ex_iter ex_meta BytewiseComparator 2 3 {})))
     = [(ex_key ''a'' 5, ''v1''), (ex_key ''b'' 4, ''v2'')]
   \<and> runs BytewiseComparator ex_entries
       = [[(ex_key ''a'' 5, ''v1''), (ex_key ''a'' 3, ''v0'')], [(ex_key ''b'' 4, ''v2'')]]
   \<and> smallest (meta (snd (BuildTable ''db'' ex_collab ex_options ex_iter ex_meta BytewiseComparator 2 3 {})))
       = Some (ex_key ''a'' 5)
   \<and> largest (meta (snd (BuildTable ''db'' ex_collab ex_options ex_iter ex_meta BytewiseComparator 2 3 {})))
       = Some (ex_key ''b'' 4)"
proof -
  have r: "runs BytewiseComparator ex_entries
       = [[(ex_key ''a'' 5, ''v1''), (ex_key ''a'' 3, ''v0'')], [(ex_key ''b'' 4, ''v2'')]]"
    by (simp add: ex_entries_def ex_key_def)
  have h1: "entries ex_iter \<noteq> []"
    by (simp add: ex_iter_def ex_entries_def)
  have h2: "sorted_source BytewiseComparator (entries ex_iter)"
    by (simp add: ex_iter_def ex_entries_def ex_key_def)
  have h3: "same_key_equiv BytewiseComparator (entries ex_iter)"
    by (simp add: same_key_equiv_def ex_iter_def ex_entries_def ex_key_def)
  have h4: "\<forall>e\<in>set (entries ex_iter). (3::64 word) \<le> sequence (fst e)"
    by (simp add: ex_iter_def ex_entries_def ex_key_def)
  have h5: "(2::64 word) < 3"
    by simp
  have h6: "purge_redundant_kvs_while_flush ex_options"
    by (simp add: ex_options_def)
  have h7: "env_NewWritableFile ex_collab (TableFileName ex_collab ''db'' (number ex_meta)) = OK"
    by (simp add: ex_collab_def)
  from purge_keeps_newest_of_each_run [OF h1 h2 h3 h4 h5 h6 h7, of "{}"] r show ?thesis
    by (simp add: ex_iter_def)
qed


text \<open>
  C2. When \<^verbatim>\<open>earliest_seqno_in_memtable\<close> is at or below the snapshot watermark, the
  purge flag of the options has no effect: the call does in every respect what it does
  with the flag cleared, for every source, since the decision is taken from the options and
  the two sequence numbers alone, before the source is read. Whenever the pass runs (the
  source is empty, or the output file was created) the entries written are the input
  entries, unchanged and in order.
\<close>

theorem purge_suppressed_at_or_below_watermark:
  assumes "earliest \<le> newest"
  shows "purge_decision options newest earliest = False
       \<and> BuildTable dbname c options iter meta0 cmp newest earliest disk0
           = BuildTable dbname c (options\<lparr>purge_redundant_kvs_while_flush := False\<rparr>) iter meta0 cmp
               newest earliest disk0
       \<and> (entries iter = [] \<or> env_NewWritableFile c (TableFileName c dbname (number meta0)) = OK
            \<longrightarrow> adds (calls (snd (BuildTable dbname c options iter meta0 cmp newest earliest disk0)))
                  = entries iter)"
proof (intro conjI impI)
  show "purge_decision options newest earliest = False"
    using assms by simp
  show "BuildTable dbname c options iter meta0 cmp newest earliest disk0
           = BuildTable dbname c (options\<lparr>purge_redundant_kvs_while_flush := False\<rparr>) iter meta0 cmp
               newest earliest disk0"
  proof (cases "entries iter = []")
    case True
    then show ?thesis
      by (simp add: BuildTable_empty)
  next
    case False
    show ?thesis
    proof (cases "env_NewWritableFile c (TableFileName c dbname (number meta0)) = OK")
      case True
      with False assms show ?thesis
        by (simp add: BuildTable_copy)
    next
      case no: False
      with False show ?thesis
        by (simp add: BuildTable_create_failed)
    qed
  qed
  assume run: "entries iter = [] \<or> env_NewWritableFile c (TableFileName c dbname (number meta0)) = OK"
  let ?f = "TableFileName c dbname (number meta0)"
  show "adds (calls (snd (BuildTable dbname c options iter meta0 cmp newest earliest disk0)))
                  = entries iter"
  proof (cases "entries iter = []")
    case True
    then show ?thesis
      by (simp add: BuildTable_empty epilogue_def)
  next
    case False
    let ?w = "copy_loop (entries iter) (start_world meta0 disk0 ?f (hd (entries iter)))"
    obtain out w' where r: "after_pass c options iter ?f OK ?w = (out, w')"
      by (cases "after_pass c options iter ?f OK ?w")
    have "BuildTable dbname c options iter meta0 cmp newest earliest disk0 = (out, w')"
      using False run assms r by (simp add: BuildTable_copy)
    moreover have "adds (calls ?w) = entries iter"
      by (simp add: calls_copy_loop start_world_def)
    ultimately show ?thesis
      using after_pass_frame(4) [OF r] by simp
  qed
qed

theorem purge_suppressed_at_or_below_watermark_witness:
  "(3 :: 64 word) \<le> 4
   \<and> purge_redundant_kvs_while_flush ex_options
   \<and> adds (calls (snd (BuildTable ''db'' ex_collab ex_options ex_iter ex_meta BytewiseComparator 4 3 {})))
       = ex_entries"
proof -
  have h: "(3 :: 64 word) \<le> 4"
    by simp
  have r: "entries ex_iter = []
      \<or> env_NewWritableFile ex_collab (TableFileName ex_collab ''db'' (number ex_meta)) = OK"
    by (simp add: ex_collab_def)
  have e: "entries ex_iter = ex_entries"
    by (simp add: ex_iter_def)
  have p: "purge_redundant_kvs_while_flush ex_options"
    by (simp add: ex_options_def)
  from purge_suppressed_at_or_below_watermark [OF h, of ex_options "''db''" ex_collab ex_iter ex_meta
      BytewiseComparator "{}"] r
  have "adds (calls (snd (BuildTable ''db'' ex_collab ex_options ex_iter ex_meta BytewiseComparator 4 3 {})))
       = entries ex_iter"
    by blast
  with h p e show ?thesis
    by simp
qed

text \<open>
  C3. For every non-empty source, with purge switched off in the options and the output
  file created, the entries handed to the table writer are the input entries, unchanged
  and in the input's order: the calls are the file creation, one \<^verbatim>\<open>Add\<close> for each
  input entry, then \<^verbatim>\<open>Finish\<close> and what follows it. The descriptor's \<open>smallest\<close> is
  the key of the first input entry and its \<open>largest\<close> the key of the last one.
\<close>

theorem copy_pass_verbatim:
  assumes "entries iter \<noteq> []"
    and "\<not> purge_redundant_kvs_while_flush options"
    and "env_NewWritableFile c (TableFileName c dbname (number meta0)) = OK"
  shows "adds (calls (snd (BuildTable dbname c options iter meta0 cmp newest earliest disk0)))
           = entries iter
       \<and> (\<exists>tail. calls (snd (BuildTable dbname c options iter meta0 cmp newest earliest disk0))
                  = NewWritableFile (TableFileName c dbname (number meta0))
                      # map add_call (entries iter) @ Finish # tail)
       \<and> smallest (meta (snd (BuildTable dbname c options iter meta0 cmp newest earliest disk0)))
           = Some (fst (hd (entries iter)))
       \<and> largest (meta (snd (BuildTable dbname c options iter meta0 cmp newest earliest disk0)))
           = Some (fst (last (entries iter)))"
proof -
  let ?f = "TableFileName c dbname (number meta0)"
  let ?w = "copy_loop (entries iter) (start_world meta0 disk0 ?f (hd (entries iter)))"
  obtain out w' where r: "after_pass c options iter ?f OK ?w = (out, w')"
    by (cases "after_pass c options iter ?f OK ?w")
  have "\<not> purge_decision options newest earliest"
    using assms(2) by (simp add: purge_decision_def)
  then have b: "BuildTable dbname c options iter meta0 cmp newest earliest disk0 = (out, w')"
    using assms(1,3) r by (simp add: BuildTable_copy)
  have cw: "calls ?w = NewWritableFile ?f # map add_call (entries iter)"
    by (simp add: calls_copy_loop start_world_def)
  have mw: "smallest (meta ?w) = Some (fst (hd (entries iter)))"
    "largest (meta ?w) = Some (fst (last (entries iter)))"
    using assms(1) by (simp_all add: meta_copy_loop start_world_def)
  from after_pass_frame [OF r] after_pass_shape [OF r] cw mw b show ?thesis
    by simp
qed

theorem copy_pass_verbatim_witness:
  "adds (calls (snd (BuildTable ''db'' ex_collab (ex_options\<lparr>purge_redundant_kvs_while_flush := False\<rparr>)
       ex_iter ex_meta BytewiseComparator 2 3 {}))) = ex_entries
   \<and> smallest (meta (snd (BuildTable ''db'' ex_collab (ex_options\<lparr>purge_redundant_kvs_while_flush := False\<rparr>)
       ex_iter ex_meta BytewiseComparator 2 3 {}))) = Some (ex_key ''a'' 5)
   \<and> largest (meta (snd (BuildTable ''db'' ex_collab (ex_options\<lparr>purge_redundant_kvs_while_flush := False\<rparr>)
       ex_iter ex_meta BytewiseComparator 2 3 {}))) = Some (ex_key ''b'' 4)"
  using copy_pass_verbatim [of ex_iter "ex_options\<lparr>purge_redundant_kvs_while_flush := False\<rparr>"
      ex_collab "''db''" ex_meta BytewiseComparator 2 3 "{}"]
  by (simp add: ex_iter_def ex_entries_def ex_options_def ex_collab_def)

text \<open>
  C4, as the spec states it, fails: when the output file cannot be created the driver
  returns at line 43, and \<^verbatim>\<open>DeleteFile\<close> is not called. Here the creation fails with
  an I/O error while a file of that name is on disk: the only call made is
  \<^verbatim>\<open>NewWritableFile\<close>, and the file is still there afterwards.
\<close>

theorem creation_failure_skips_cleanup:
  "fst (BuildTable ''db'' (ex_collab\<lparr>env_NewWritableFile := (\<lambda>fname. NotOK ''IO error'')\<rparr>)
          ex_options ex_iter ex_meta BytewiseComparator 2 3 {''db/7.sst''})
     = Returned (NotOK ''IO error'')
   \<and> calls (snd (BuildTable ''db'' (ex_collab\<lparr>env_NewWritableFile := (\<lambda>fname. NotOK ''IO error'')\<rparr>)
          ex_options ex_iter ex_meta BytewiseComparator 2 3 {''db/7.sst''}))
     = [NewWritableFile ''db/7.sst'']
   \<and> ''db/7.sst'' \<in> disk (snd (BuildTable ''db''
          (ex_collab\<lparr>env_NewWritableFile := (\<lambda>fname. NotOK ''IO error'')\<rparr>)
          ex_options ex_iter ex_meta BytewiseComparator 2 3 {''db/7.sst''}))"
  by (simp add: BuildTable_create_failed ex_collab_def ex_iter_def ex_entries_def ex_meta_def)

text \<open>
  C4, amended. Take a call that returns. When the output file was created and any later
  stage fails (the writer's \<^verbatim>\<open>Finish\<close>, the sync, the \<^verbatim>\<open>Close\<close>, the verification,
  or the source's deferred status), and likewise when the source is empty and its deferred
  status is set, the result is a failure; the result is a failure in no other case once
  the file was created. Whenever the result is a failure other than that of creating the
  output file, the last thing the driver does is the epilogue's \<^verbatim>\<open>DeleteFile\<close> on the
  output file, and the file is not on disk afterwards. When creating the output file
  fails, the driver returns that error, a failure, at once: its only call is
  \<^verbatim>\<open>NewWritableFile\<close> and the disk is as it was.
\<close>

theorem failure_runs_cleanup_unless_creation_failed:
  assumes "BuildTable dbname c options iter meta0 cmp newest earliest disk0 = (Returned s, w)"
  shows "(entries iter \<noteq> [] \<and> env_NewWritableFile c (TableFileName c dbname (number meta0)) = OK
            \<longrightarrow> (s \<noteq> OK) = stage_failed c options iter (adds (calls w)) (number meta0))
       \<and> (entries iter = [] \<longrightarrow> (s \<noteq> OK) = (status iter \<noteq> OK))
       \<and> (s \<noteq> OK \<and> (entries iter = []
                       \<or> env_NewWritableFile c (TableFileName c dbname (number meta0)) = OK)
            \<longrightarrow> calls w \<noteq> [] \<and> last (calls w) = DeleteFile (TableFileName c dbname (number meta0))
                \<and> TableFileName c dbname (number meta0) \<notin> disk w)
       \<and> (entries iter \<noteq> [] \<and> env_NewWritableFile c (TableFileName c dbname (number meta0)) \<noteq> OK
            \<longrightarrow> s = env_NewWritableFile c (TableFileName c dbname (number meta0)) \<and> s \<noteq> OK
                \<and> calls w = [NewWritableFile (TableFileName c dbname (number meta0))]
                \<and> disk w = disk0)"
proof -
  let ?f = "TableFileName c dbname (number meta0)"
  have created: "(s \<noteq> OK) = stage_failed c options iter (adds (calls w)) (number meta0)"
    if ne: "entries iter \<noteq> []" and ok: "env_NewWritableFile c ?f = OK"
  proof -
    from BuildTable_created [OF ne ok, of options cmp newest earliest disk0] show ?thesis
    proof (elim disjE exE conjE)
      fix w' ws
      assume "BuildTable dbname c options iter meta0 cmp newest earliest disk0 = (AssertionFailed, w')"
      with assms show ?thesis
        by simp
    next
      fix w4 ws
      assume b: "BuildTable dbname c options iter meta0 cmp newest earliest disk0
               = after_pass c options iter ?f OK w4"
        and w4: "meta w4 = meta0\<lparr>file_size := 0, smallest := Some (fst (hd (entries iter))),
                               largest := Some (fst (last ws))\<rparr>"
      from b assms have r: "after_pass c options iter ?f OK w4 = (Returned s, w)"
        by simp
      have "adds (calls w) = adds (calls w4)" "number (meta w4) = number meta0"
        using after_pass_frame(4) [OF r] w4 by simp_all
      with after_pass_fails_iff [OF r] show ?thesis
        by simp
    qed
  qed
  have empty: "(s \<noteq> OK) = (status iter \<noteq> OK)" if "entries iter = []"
    using that assms by (auto simp: BuildTable_empty epilogue_def split: if_splits)
  have cleanup: "calls w \<noteq> [] \<and> last (calls w) = DeleteFile ?f \<and> ?f \<notin> disk w"
    if bad: "s \<noteq> OK" and run: "entries iter = [] \<or> env_NewWritableFile c ?f = OK"
  proof (cases "entries iter = []")
    case True
    with assms bad show ?thesis
      by (auto simp: BuildTable_empty epilogue_def split: if_splits)
  next
    case False
    with run have ok: "env_NewWritableFile c ?f = OK"
      by simp
    from BuildTable_created [OF False ok, of options cmp newest earliest disk0] assms
    obtain w4 where "after_pass c options iter ?f OK w4 = (Returned s, w)"
      by auto
    from after_pass_failure [OF this bad] show ?thesis
      by simp
  qed
  have not_created: "s = env_NewWritableFile c ?f \<and> s \<noteq> OK \<and> calls w = [NewWritableFile ?f]
      \<and> disk w = disk0"
    if "entries iter \<noteq> []" and "env_NewWritableFile c ?f \<noteq> OK"
    using that assms by (auto simp: BuildTable_create_failed)
  show ?thesis
    using created empty cleanup not_created by (intro conjI impI) simp_all
qed

theorem failure_runs_cleanup_unless_creation_failed_witness:
  "BuildTable ''db'' (ex_collab\<lparr>table_cache_NewIterator := (\<lambda>n size. NotOK ''Corruption'')\<rparr>)
       (ex_options\<lparr>disableDataSync := True\<rparr>) ex_iter ex_meta BytewiseComparator 2 3 {}
     = (Returned (NotOK ''Corruption''),
        \<lparr>meta = \<lparr>number = 7, file_size = 100, smallest = Some (ex_key ''a'' 5),
                  largest = Some (ex_key ''b'' 4)\<rparr>,
         calls = [NewWritableFile ''db/7.sst'', Add (ex_key ''a'' 5) ''v1'', Add (ex_key ''b'' 4) ''v2'',
                  Finish, DeleteBuilder, Close, NewIterator 7 100, DeleteFile ''db/7.sst''],
         disk = {}\<rparr>)
   \<and> stage_failed (ex_collab\<lparr>table_cache_NewIterator := (\<lambda>n size. NotOK ''Corruption'')\<rparr>)
         (ex_options\<lparr>disableDataSync := True\<rparr>) ex_iter
         [(ex_key ''a'' 5, ''v1''), (ex_key ''b'' 4, ''v2'')] 7
   \<and> NotOK ''Corruption'' \<noteq> OK
   \<and> last [NewWritableFile ''db/7.sst'', Add (ex_key ''a'' 5) ''v1'', Add (ex_key ''b'' 4) ''v2'',
            Finish, DeleteBuilder, Close, NewIterator 7 100, DeleteFile ''db/7.sst'']
       = DeleteFile ''db/7.sst''
   \<and> ''db/7.sst'' \<notin> ({} :: string set)"
proof -
  let ?c = "ex_collab\<lparr>table_cache_NewIterator := (\<lambda>n size. NotOK ''Corruption'')\<rparr>"
  let ?o = "ex_options\<lparr>disableDataSync := True\<rparr>"
  let ?w = "\<lparr>meta = \<lparr>number = 7, file_size = 100, smallest = Some (ex_key ''a'' 5),
                  largest = Some (ex_key ''b'' 4)\<rparr>,
         calls = [NewWritableFile ''db/7.sst'', Add (ex_key ''a'' 5) ''v1'', Add (ex_key ''b'' 4) ''v2'',
                  Finish, DeleteBuilder, Close, NewIterator 7 100, DeleteFile ''db/7.sst''],
         disk = {}\<rparr>"
  have b: "BuildTable ''db'' ?c ?o ex_iter ex_meta BytewiseComparator 2 3 {}
     = (Returned (NotOK ''Corruption''), ?w)"
    by (simp add: BuildTable_def ex_collab_def ex_options_def ex_iter_def ex_entries_def ex_meta_def
        ex_key_def purge_decision_def purge_pass_def after_pass_def stage_defs emit_def Let_def)
  have h1: "entries ex_iter \<noteq> []"
    by (simp add: ex_iter_def ex_entries_def)
  have h2: "env_NewWritableFile ?c (TableFileName ?c ''db'' (number ex_meta)) = OK"
    by (simp add: ex_collab_def)
  have f: "TableFileName ?c ''db'' (number ex_meta) = ''db/7.sst''"
    by (simp add: ex_collab_def)
  have a: "adds (calls ?w) = [(ex_key ''a'' 5, ''v1''), (ex_key ''b'' 4, ''v2'')]"
    "number ex_meta = 7"
    by (simp_all add: ex_meta_def)
  have sf: "stage_failed ?c ?o ex_iter (adds (calls ?w)) (number ex_meta)"
    by (simp add: stage_failed_def ex_collab_def)
  note t = failure_runs_cleanup_unless_creation_failed [OF b]
  from t h1 h2 sf have bad: "NotOK ''Corruption'' \<noteq> OK"
    by blast
  with t h2 have "last (calls ?w) = DeleteFile (TableFileName ?c ''db'' (number ex_meta))
      \<and> TableFileName ?c ''db'' (number ex_meta) \<notin> disk ?w"
    by blast
  with b sf bad show ?thesis
    unfolding f a by simp
qed

text \<open>
  C5, as the spec states it, fails. \<^verbatim>\<open>Add\<close> returns nothing and the status \<^verbatim>\<open>s\<close> is
  not assigned during the pass, so at line 95 it is still the success of the file creation:
  the driver calls \<^verbatim>\<open>Finish\<close>, and the \<^verbatim>\<open>Abandon\<close> of line 102 is not reached.
  The descriptor is not in its zero state either: \<open>smallest\<close> was set at line 49 and
  \<open>largest\<close> during the pass. Here the source has one entry and the writer reports its
  error when it is finished.
\<close>

theorem writer_error_still_finishes:
  "BuildTable ''db'' (ex_collab\<lparr>builder_Finish := (\<lambda>es. NotOK ''IO error'')\<rparr>) ex_options
       \<lparr>entries = [(ex_key ''a'' 5, ''v1'')], status = OK\<rparr> ex_meta BytewiseComparator 2 3 {}
     = (Returned (NotOK ''IO error''),
        \<lparr>meta = \<lparr>number = 7, file_size = 0, smallest = Some (ex_key ''a'' 5),
                  largest = Some (ex_key ''a'' 5)\<rparr>,
         calls = [NewWritableFile ''db/7.sst'', Add (ex_key ''a'' 5) ''v1'', Finish, DeleteBuilder,
                  DeleteFile ''db/7.sst''],
         disk = {}\<rparr>)"
  by (simp add: BuildTable_def ex_collab_def ex_options_def ex_meta_def
      ex_key_def purge_decision_def purge_pass_def after_pass_def stage_defs emit_def Let_def)

text \<open>
  C5, amended. For every non-empty input whose output file was created and on which the
  table writer reports an error (the driver learns of it from \<^verbatim>\<open>Finish\<close>), a call that
  returns returns a failure, its last action is to delete the output file, which is not on
  disk afterwards, and the descriptor's \<open>file_size\<close> is 0; \<open>smallest\<close> and \<open>largest\<close>
  are not unset: they are the key of the first input entry and the key of the last entry
  written.
\<close>

theorem writer_error_fails_build:
  assumes "entries iter \<noteq> []"
    and "env_NewWritableFile c (TableFileName c dbname (number meta0)) = OK"
    and "BuildTable dbname c options iter meta0 cmp newest earliest disk0 = (Returned s, w)"
    and "builder_Finish c (adds (calls w)) \<noteq> OK"
  shows "s \<noteq> OK
       \<and> last (calls w) = DeleteFile (TableFileName c dbname (number meta0))
       \<and> TableFileName c dbname (number meta0) \<notin> disk w
       \<and> file_size (meta w) = 0
       \<and> smallest (meta w) = Some (fst (hd (entries iter)))
       \<and> largest (meta w) = Some (fst (last (adds (calls w))))"
proof -
  let ?f = "TableFileName c dbname (number meta0)"
  from BuildTable_created [OF assms(1,2), of options cmp newest earliest disk0] assms(3)
  obtain w4 ws where r: "after_pass c options iter ?f OK w4 = (Returned s, w)"
    and w4: "calls w4 = NewWritableFile ?f # map add_call ws"
      "meta w4 = meta0\<lparr>file_size := 0, smallest := Some (fst (hd (entries iter))),
                               largest := Some (fst (last ws))\<rparr>"
    by auto
  have a: "adds (calls w) = ws"
    using after_pass_frame(4) [OF r] w4(1) by simp
  then have "builder_Finish c (adds (calls w4)) \<noteq> OK"
    using assms(4) w4(1) by simp
  from after_pass_finish_failed [OF r this] after_pass_failure [OF r] a w4(2) show ?thesis
    by simp
qed

theorem writer_error_fails_build_witness:
  "BuildTable ''db'' (ex_collab\<lparr>builder_Finish := (\<lambda>es. NotOK ''IO error'')\<rparr>) ex_options ex_iter
       ex_meta BytewiseComparator 2 3 {}
     = (Returned (NotOK ''IO error''),
        \<lparr>meta = \<lparr>number = 7, file_size = 0, smallest = Some (ex_key ''a'' 5),
                  largest = Some (ex_key ''b'' 4)\<rparr>,
         calls = [NewWritableFile ''db/7.sst'', Add (ex_key ''a'' 5) ''v1'', Add (ex_key ''b'' 4) ''v2'',
                  Finish, DeleteBuilder, DeleteFile ''db/7.sst''],
         disk = {}\<rparr>)
   \<and> NotOK ''IO error'' \<noteq> OK
   \<and> ''db/7.sst'' \<notin> ({} :: string set)
   \<and> hd (entries ex_iter) = (ex_key ''a'' 5, ''v1'')"
proof -
  let ?c = "ex_collab\<lparr>builder_Finish := (\<lambda>es. NotOK ''IO error'')\<rparr>"
  have b: "BuildTable ''db'' ?c ex_options ex_iter ex_meta BytewiseComparator 2 3 {}
     = (Returned (NotOK ''IO error''),
        \<lparr>meta = \<lparr>number = 7, file_size = 0, smallest = Some (ex_key ''a'' 5),
                  largest = Some (ex_key ''b'' 4)\<rparr>,
         calls = [NewWritableFile ''db/7.sst'', Add (ex_key ''a'' 5) ''v1'', Add (ex_key ''b'' 4) ''v2'',
                  Finish, DeleteBuilder, DeleteFile ''db/7.sst''],
         disk = {}\<rparr>)"
    by (simp add: BuildTable_def ex_collab_def ex_options_def ex_iter_def ex_entries_def ex_meta_def
        ex_key_def purge_decision_def purge_pass_def after_pass_def stage_defs emit_def Let_def)
  have h1: "entries ex_iter \<noteq> []"
    by (simp add: ex_iter_def ex_entries_def)
  have h2: "env_NewWritableFile ?c (TableFileName ?c ''db'' (number ex_meta)) = OK"
    by (simp add: ex_collab_def)
  have h4: "builder_Finish ?c (adds (calls
        \<lparr>meta = \<lparr>number = 7, file_size = 0, smallest = Some (ex_key ''a'' 5),
                  largest = Some (ex_key ''b'' 4)\<rparr>,
         calls = [NewWritableFile ''db/7.sst'', Add (ex_key ''a'' 5) ''v1'', Add (ex_key ''b'' 4) ''v2'',
                  Finish, DeleteBuilder, DeleteFile ''db/7.sst''],
         disk = {}\<rparr>)) \<noteq> OK"
    by (simp add: ex_collab_def)
  from writer_error_fails_build [OF h1 h2 b h4] b show ?thesis
    by (simp add: ex_collab_def ex_iter_def ex_entries_def)
qed

text \<open>
  C6. For every source that yields no entry and whose deferred status is clean, the call
  returns success; no file is created (the only call made on a collaborator is the
  epilogue's \<^verbatim>\<open>DeleteFile\<close>), the output file is not on disk afterwards, and the
  descriptor's \<open>file_size\<close> is 0.
\<close>

theorem empty_source_succeeds_without_file:
  assumes "entries iter = []" and "status iter = OK"
  shows "fst (BuildTable dbname c options iter meta0 cmp newest earliest disk0) = Returned OK
       \<and> calls (snd (BuildTable dbname c options iter meta0 cmp newest earliest disk0))
           = [DeleteFile (TableFileName c dbname (number meta0))]
       \<and> TableFileName c dbname (number meta0)
           \<notin> disk (snd (BuildTable dbname c options iter meta0 cmp newest earliest disk0))
       \<and> file_size (meta (snd (BuildTable dbname c options iter meta0 cmp newest earliest disk0))) = 0"
  using assms by (simp add: BuildTable_empty epilogue_def)

theorem empty_source_succeeds_without_file_witness:
  "fst (BuildTable ''db'' ex_collab ex_options \<lparr>entries = [], status = OK\<rparr> ex_meta
          BytewiseComparator 2 3 {''db/7.sst''}) = Returned OK
   \<and> calls (snd (BuildTable ''db'' ex_collab ex_options \<lparr>entries = [], status = OK\<rparr> ex_meta
          BytewiseComparator 2 3 {''db/7.sst''})) = [DeleteFile ''db/7.sst'']
   \<and> ''db/7.sst'' \<notin> disk (snd (BuildTable ''db'' ex_collab ex_options \<lparr>entries = [], status = OK\<rparr>
          ex_meta BytewiseComparator 2 3 {''db/7.sst''}))
   \<and> file_size (meta (snd (BuildTable ''db'' ex_collab ex_options \<lparr>entries = [], status = OK\<rparr>
          ex_meta BytewiseComparator 2 3 {''db/7.sst''}))) = 0"
  using empty_source_succeeds_without_file [of "\<lparr>entries = [], status = OK\<rparr>" "''db''" ex_collab
      ex_options ex_meta BytewiseComparator 2 3 "{''db/7.sst''}"]
  by (simp add: ex_collab_def)

text \<open>
  C7. Take a non-empty build whose output file was created, whose \<^verbatim>\<open>Finish\<close> succeeded
  and which returns. When \<^verbatim>\<open>disableDataSync\<close> is set, neither \<^verbatim>\<open>Fsync\<close> nor
  \<^verbatim>\<open>Sync\<close> is called. Otherwise exactly one of the two is called, once: \<^verbatim>\<open>Fsync\<close>
  when \<^verbatim>\<open>use_fsync\<close> is set, \<^verbatim>\<open>Sync\<close> when it is not; \<^verbatim>\<open>Close\<close> is called if
  and only if that sync succeeded, and then directly after it; and a sync that fails makes
  the result a failure. A \<^verbatim>\<open>Close\<close> that is called and fails makes the result a
  failure as well.
\<close>

theorem durability_sequencing:
  assumes "entries iter \<noteq> []"
    and "env_NewWritableFile c (TableFileName c dbname (number meta0)) = OK"
    and "BuildTable dbname c options iter meta0 cmp newest earliest disk0 = (Returned s, w)"
    and "builder_Finish c (adds (calls w)) = OK"
  shows "(disableDataSync options \<longrightarrow> Fsync \<notin> set (calls w) \<and> Sync \<notin> set (calls w))
       \<and> (\<not> disableDataSync options \<longrightarrow>
             filter (\<lambda>x. x = Fsync \<or> x = Sync) (calls w) = [sync_call options]
           \<and> (Close \<in> set (calls w) \<longleftrightarrow> sync_result c options = OK)
           \<and> (Close \<in> set (calls w) \<longrightarrow>
                 (\<exists>before after. calls w = before @ [sync_call options, Close] @ after))
           \<and> (sync_result c options \<noteq> OK \<longrightarrow> s \<noteq> OK))
       \<and> (Close \<in> set (calls w) \<and> file_Close c \<noteq> OK \<longrightarrow> s \<noteq> OK)"
proof -
  let ?f = "TableFileName c dbname (number meta0)"
  from BuildTable_created [OF assms(1,2), of options cmp newest earliest disk0] assms(3)
  obtain w4 ws where r: "after_pass c options iter ?f OK w4 = (Returned s, w)"
    and w4: "calls w4 = NewWritableFile ?f # map add_call ws"
    by auto
  have "adds (calls w) = adds (calls w4)"
    using after_pass_frame(4) [OF r] .
  then have fin: "builder_Finish c (adds (calls w4)) = OK"
    using assms(4) by simp
  note ok = after_pass_finish_ok [OF r fin]
  let ?sz = "builder_FileSize c (adds (calls w4))"
  let ?n = "number (meta w4)"
  let ?tail = "(if (disableDataSync options \<or> sync_result c options = OK) \<and> file_Close c = OK
              then [NewIterator ?n ?sz] else [])
           @ (if s = OK then [] else [DeleteFile ?f])"
  have cw: "calls w = (NewWritableFile ?f # map add_call ws @ [Finish, DeleteBuilder])
           @ (if disableDataSync options then [] else [sync_call options])
           @ (if disableDataSync options \<or> sync_result c options = OK then [Close] else [])
           @ ?tail"
    using ok(3) w4 by simp
  have adds_free: "Fsync \<notin> set (map add_call ws)" "Sync \<notin> set (map add_call ws)"
    "Close \<notin> set (map add_call ws)"
    by auto
  have no_sync: "disableDataSync options \<Longrightarrow> Fsync \<notin> set (calls w) \<and> Sync \<notin> set (calls w)"
    using adds_free by (simp add: cw)
  have one_sync: "\<not> disableDataSync options \<Longrightarrow>
      filter (\<lambda>x. x = Fsync \<or> x = Sync) (calls w) = [sync_call options]"
    by (simp add: cw sync_call_def)
  have close_iff: "\<not> disableDataSync options \<Longrightarrow>
      (Close \<in> set (calls w)) = (sync_result c options = OK)"
    using adds_free by (simp add: cw sync_call_def)
  have close_after: "\<not> disableDataSync options \<Longrightarrow> Close \<in> set (calls w) \<Longrightarrow>
      \<exists>before after. calls w = before @ [sync_call options, Close] @ after"
  proof -
    assume d: "\<not> disableDataSync options" and "Close \<in> set (calls w)"
    with close_iff have "sync_result c options = OK"
      by simp
    with d cw have "calls w = (NewWritableFile ?f # map add_call ws @ [Finish, DeleteBuilder])
           @ [sync_call options, Close] @ ?tail"
      by simp
    then show ?thesis
      by blast
  qed
  have close_fail: "Close \<in> set (calls w) \<Longrightarrow> file_Close c \<noteq> OK \<Longrightarrow> s \<noteq> OK"
  proof -
    assume cl: "Close \<in> set (calls w)" and f: "file_Close c \<noteq> OK"
    have "disableDataSync options \<or> sync_result c options = OK"
      using cl close_iff by blast
    from ok(5) [OF this f] show ?thesis .
  qed
  from no_sync one_sync close_iff close_after close_fail ok(4) show ?thesis
    by blast
qed

theorem durability_sequencing_witness:
  "BuildTable ''db'' (ex_collab\<lparr>file_Close := NotOK ''IO error''\<rparr>) (ex_options\<lparr>use_fsync := True\<rparr>)
       ex_iter ex_meta BytewiseComparator 2 3 {}
     = (Returned (NotOK ''IO error''),
        \<lparr>meta = \<lparr>number = 7, file_size = 100, smallest = Some (ex_key ''a'' 5),
                  largest = Some (ex_key ''b'' 4)\<rparr>,
         calls = [NewWritableFile ''db/7.sst'', Add (ex_key ''a'' 5) ''v1'', Add (ex_key ''b'' 4) ''v2'',
                  Finish, DeleteBuilder, Fsync, Close, DeleteFile ''db/7.sst''],
         disk = {}\<rparr>)
   \<and> \<not> disableDataSync (ex_options\<lparr>use_fsync := True\<rparr>)
   \<and> sync_call (ex_options\<lparr>use_fsync := True\<rparr>) = Fsync
   \<and> sync_result (ex_collab\<lparr>file_Close := NotOK ''IO error''\<rparr>) (ex_options\<lparr>use_fsync := True\<rparr>) = OK
   \<and> file_Close (ex_collab\<lparr>file_Close := NotOK ''IO error''\<rparr>) \<noteq> OK
   \<and> NotOK ''IO error'' \<noteq> OK"
proof -
  let ?c = "ex_collab\<lparr>file_Close := NotOK ''IO error''\<rparr>"
  let ?o = "ex_options\<lparr>use_fsync := True\<rparr>"
  let ?w = "\<lparr>meta = \<lparr>number = 7, file_size = 100, smallest = Some (ex_key ''a'' 5),
                  largest = Some (ex_key ''b'' 4)\<rparr>,
         calls = [NewWritableFile ''db/7.sst'', Add (ex_key ''a'' 5) ''v1'', Add (ex_key ''b'' 4) ''v2'',
                  Finish, DeleteBuilder, Fsync, Close, DeleteFile ''db/7.sst''],
         disk = {}\<rparr>"
  have b: "BuildTable ''db'' ?c ?o ex_iter ex_meta BytewiseComparator 2 3 {}
     = (Returned (NotOK ''IO error''), ?w)"
    by (simp add: BuildTable_def ex_collab_def ex_options_def ex_iter_def ex_entries_def ex_meta_def
        ex_key_def purge_decision_def purge_pass_def after_pass_def stage_defs emit_def Let_def)
  have h1: "entries ex_iter \<noteq> []"
    by (simp add: ex_iter_def ex_entries_def)
  have h2: "env_NewWritableFile ?c (TableFileName ?c ''db'' (number ex_meta)) = OK"
    by (simp add: ex_collab_def)
  have h4: "builder_Finish ?c (adds (calls ?w)) = OK"
    by (simp add: ex_collab_def)
  have d: "\<not> disableDataSync ?o" "sync_call ?o = Fsync" "sync_result ?c ?o = OK"
    "file_Close ?c \<noteq> OK"
    by (simp_all add: ex_options_def ex_collab_def sync_call_def sync_result_def)
  from durability_sequencing [OF h1 h2 b h4] d have "NotOK ''IO error'' \<noteq> OK"
    by simp
  with b d show ?thesis
    by simp
qed

text \<open>
  C8, as the spec states it, fails for an invocation that cannot create its output file:
  the driver returns the creation error at line 43 and does not reach the check of lines
  129-131. Here the source has entries and a deferred error, and the creation fails: the
  result is the creation error, not the source's.
\<close>

theorem creation_failure_hides_source_error:
  "fst (BuildTable ''db'' (ex_collab\<lparr>env_NewWritableFile := (\<lambda>fname. NotOK ''IO error'')\<rparr>)
          ex_options \<lparr>entries = ex_entries, status = NotOK ''Corruption''\<rparr> ex_meta
          BytewiseComparator 2 3 {})
     = Returned (NotOK ''IO error'')
   \<and> fst (BuildTable ''db'' (ex_collab\<lparr>env_NewWritableFile := (\<lambda>fname. NotOK ''IO error'')\<rparr>)
          ex_options \<lparr>entries = ex_entries, status = NotOK ''Corruption''\<rparr> ex_meta
          BytewiseComparator 2 3 {})
     \<noteq> Returned (NotOK ''Corruption'')"
  by (simp add: BuildTable_create_failed ex_collab_def ex_entries_def)

text \<open>
  C8, amended. For every invocation that returns and did not fail to create its output
  file, for an empty source as for a non-empty one, the source's deferred status is checked
  after the build, durability and verification stages, and when it is set the call's
  result is that error, whatever the stages before it gave. When creating the output file
  fails, the result is the creation error.
\<close>

theorem deferred_source_error_overrides:
  assumes "BuildTable dbname c options iter meta0 cmp newest earliest disk0 = (Returned s, w)"
    and "status iter \<noteq> OK"
  shows "(entries iter = [] \<or> env_NewWritableFile c (TableFileName c dbname (number meta0)) = OK
            \<longrightarrow> s = status iter)
       \<and> (entries iter \<noteq> [] \<and> env_NewWritableFile c (TableFileName c dbname (number meta0)) \<noteq> OK
            \<longrightarrow> s = env_NewWritableFile c (TableFileName c dbname (number meta0)))"
proof (rule conjI [OF impI impI])
  let ?f = "TableFileName c dbname (number meta0)"
  assume run: "entries iter = [] \<or> env_NewWritableFile c ?f = OK"
  show "s = status iter"
  proof (cases "entries iter = []")
    case True
    with assms show ?thesis
      by (auto simp: BuildTable_empty epilogue_def split: if_splits)
  next
    case False
    with run have ok: "env_NewWritableFile c ?f = OK"
      by simp
    from BuildTable_created [OF False ok, of options cmp newest earliest disk0] assms(1)
    obtain w4 where "after_pass c options iter ?f OK w4 = (Returned s, w)"
      by auto
    from after_pass_deferred [OF this assms(2)] show ?thesis .
  qed
next
  let ?f = "TableFileName c dbname (number meta0)"
  assume "entries iter \<noteq> [] \<and> env_NewWritableFile c ?f \<noteq> OK"
  with assms(1) show "s = env_NewWritableFile c ?f"
    by (auto simp: BuildTable_create_failed)
qed

theorem deferred_source_error_overrides_witness:
  "BuildTable ''db'' ex_collab ex_options \<lparr>entries = ex_entries, status = NotOK ''Corruption''\<rparr>
       ex_meta BytewiseComparator 2 3 {}
     = (Returned (NotOK ''Corruption''),
        \<lparr>meta = \<lparr>number = 7, file_size = 100, smallest = Some (ex_key ''a'' 5),
                  largest = Some (ex_key ''b'' 4)\<rparr>,
         calls = [NewWritableFile ''db/7.sst'', Add (ex_key ''a'' 5) ''v1'', Add (ex_key ''b'' 4) ''v2'',
                  Finish, DeleteBuilder, Sync, Close, NewIterator 7 100, DeleteFile ''db/7.sst''],
         disk = {}\<rparr>)
   \<and> status \<lparr>entries = ex_entries, status = NotOK ''Corruption''\<rparr> = NotOK ''Corruption''"
proof -
  let ?it = "\<lparr>entries = ex_entries, status = NotOK ''Corruption''\<rparr>"
  have b: "BuildTable ''db'' ex_collab ex_options ?it ex_meta BytewiseComparator 2 3 {}
     = (Returned (NotOK ''Corruption''),
        \<lparr>meta = \<lparr>number = 7, file_size = 100, smallest = Some (ex_key ''a'' 5),
                  largest = Some (ex_key ''b'' 4)\<rparr>,
         calls = [NewWritableFile ''db/7.sst'', Add (ex_key ''a'' 5) ''v1'', Add (ex_key ''b'' 4) ''v2'',
                  Finish, DeleteBuilder, Sync, Close, NewIterator 7 100, DeleteFile ''db/7.sst''],
         disk = {}\<rparr>)"
    by (simp add: BuildTable_def ex_collab_def ex_options_def ex_entries_def ex_meta_def
        ex_key_def purge_decision_def purge_pass_def after_pass_def stage_defs emit_def Let_def)
  have h: "status ?it \<noteq> OK"
    by simp
  from deferred_source_error_overrides [OF b h] b show ?thesis
    by (simp add: ex_collab_def)
qed

text \<open>
  C9. In purge mode, with the output file created, let the source be
  \<open>first # xs @ this # rest\<close>, let \<open>prev\<close> be the pending entry when the loop has
  consumed \<open>xs\<close>, and let the user comparator find the user keys of \<open>prev\<close> and
  \<open>this\<close> equal (the sequence numbers of \<open>first\<close> and \<open>this\<close> being at least
  \<^verbatim>\<open>earliest_seqno_in_memtable\<close>, as lines 60 and 66 assert). If the sequence number of
  \<open>this\<close> is strictly below that of \<open>prev\<close>, then \<open>this\<close> is discarded and the pending
  entry stays: the call does in every respect what it does on the source without
  \<open>this\<close>. If it is not, the call ends in a failed assertion at that entry, nothing more
  having been done, and not in a returned status.
\<close>

theorem same_key_entry_discarded_or_fault:
  assumes "purge_decision options newest earliest"
    and "env_NewWritableFile c (TableFileName c dbname (number meta0)) = OK"
    and "entries iter = first # xs @ this # rest"
    and "earliest \<le> sequence (fst first)"
    and "purge_loop cmp earliest first xs
           (start_world meta0 disk0 (TableFileName c dbname (number meta0)) first) = (Some prev, w)"
    and "cmp (user_key (fst prev)) (user_key (fst this)) = 0"
    and "earliest \<le> sequence (fst this)"
  shows "(sequence (fst this) < sequence (fst prev) \<longrightarrow>
            BuildTable dbname c options iter meta0 cmp newest earliest disk0
              = BuildTable dbname c options (iter\<lparr>entries := first # xs @ rest\<rparr>) meta0 cmp newest
                  earliest disk0)
       \<and> (\<not> sequence (fst this) < sequence (fst prev) \<longrightarrow>
            BuildTable dbname c options iter meta0 cmp newest earliest disk0 = (AssertionFailed, w))"
proof -
  let ?f = "TableFileName c dbname (number meta0)"
  let ?w0 = "start_world meta0 disk0 ?f first"
  let ?iter' = "iter\<lparr>entries := first # xs @ rest\<rparr>"
  have with_this: "purge_loop cmp earliest first (xs @ this # rest) ?w0
      = (if sequence (fst this) < sequence (fst prev) then purge_loop cmp earliest prev rest w
         else (None, w))"
    using assms(5,6,7) by (simp add: purge_loop_append)
  have without: "purge_loop cmp earliest first (xs @ rest) ?w0 = purge_loop cmp earliest prev rest w"
    using assms(5) by (simp add: purge_loop_append)
  have b: "BuildTable dbname c options iter meta0 cmp newest earliest disk0 =
     (case purge_pass cmp earliest first (xs @ this # rest) ?w0 of
        (False, w4) \<Rightarrow> (AssertionFailed, w4)
      | (True, w4) \<Rightarrow> after_pass c options iter ?f OK w4)"
    using BuildTable_purge [of iter c dbname meta0 options newest earliest cmp disk0] assms(1,2,3)
    by simp
  have ap: "after_pass c options ?iter' = after_pass c options iter"
    by (rule after_pass_status) simp
  have "BuildTable dbname c options ?iter' meta0 cmp newest earliest disk0 =
     (case purge_pass cmp earliest first (xs @ rest) ?w0 of
        (False, w4) \<Rightarrow> (AssertionFailed, w4)
      | (True, w4) \<Rightarrow> after_pass c options ?iter' ?f OK w4)"
    using BuildTable_purge [of ?iter' c dbname meta0 options newest earliest cmp disk0] assms(1,2)
    by simp
  then have b': "BuildTable dbname c options ?iter' meta0 cmp newest earliest disk0 =
     (case purge_pass cmp earliest first (xs @ rest) ?w0 of
        (False, w4) \<Rightarrow> (AssertionFailed, w4)
      | (True, w4) \<Rightarrow> after_pass c options iter ?f OK w4)"
    unfolding ap .
  have discarded: "sequence (fst this) < sequence (fst prev) \<Longrightarrow>
      purge_pass cmp earliest first (xs @ this # rest) ?w0 = purge_pass cmp earliest first (xs @ rest) ?w0"
    using with_this without by (simp add: purge_pass_def)
  have fault: "\<not> sequence (fst this) < sequence (fst prev) \<Longrightarrow>
      purge_pass cmp earliest first (xs @ this # rest) ?w0 = (False, w)"
    using with_this assms(4) by (simp add: purge_pass_def)
  show ?thesis
    using b b' discarded fault by simp
qed

theorem same_key_entry_discarded_or_fault_witness:
  "BuildTable ''db'' ex_collab ex_options ex_iter ex_meta BytewiseComparator 2 3 {}
     = BuildTable ''db'' ex_collab ex_options
         (ex_iter\<lparr>entries := [(ex_key ''a'' 5, ''v1''), (ex_key ''b'' 4, ''v2'')]\<rparr>) ex_meta
         BytewiseComparator 2 3 {}
   \<and> BuildTable ''db'' ex_collab ex_options
         \<lparr>entries = [(ex_key ''a'' 5, ''v1''), (ex_key ''a'' 6, ''v0''), (ex_key ''b'' 4, ''v2'')],
          status = OK\<rparr> ex_meta BytewiseComparator 2 3 {}
     = (AssertionFailed, start_world ex_meta {} ''db/7.sst'' (ex_key ''a'' 5, ''v1''))"
proof -
  let ?first = "(ex_key ''a'' 5, ''v1'')"
  let ?rest = "[(ex_key ''b'' 4, ''v2'')]"
  let ?w = "start_world ex_meta {} ''db/7.sst'' ?first"
  let ?bad = "\<lparr>entries = [?first, (ex_key ''a'' 6, ''v0''), (ex_key ''b'' 4, ''v2'')], status = OK\<rparr>"
  have f: "TableFileName ex_collab ''db'' (number ex_meta) = ''db/7.sst''"
    by (simp add: ex_collab_def)
  have h1: "purge_decision ex_options 2 3"
    by (simp add: purge_decision_def ex_options_def)
  have h2: "env_NewWritableFile ex_collab (TableFileName ex_collab ''db'' (number ex_meta)) = OK"
    by (simp add: ex_collab_def)
  have h3: "entries ex_iter = ?first # [] @ (ex_key ''a'' 3, ''v0'') # ?rest"
    by (simp add: ex_iter_def ex_entries_def)
  have h3': "entries ?bad = ?first # [] @ (ex_key ''a'' 6, ''v0'') # ?rest"
    by simp
  have h4: "(3 :: 64 word) \<le> sequence (fst ?first)"
    by (simp add: ex_key_def)
  have h5: "purge_loop BytewiseComparator 3 ?first []
      (start_world ex_meta {} (TableFileName ex_collab ''db'' (number ex_meta)) ?first) = (Some ?first, ?w)"
    by (simp add: f)
  have h6: "BytewiseComparator (user_key (fst ?first)) (user_key (fst (ex_key ''a'' 3, ''v0''))) = 0"
    "BytewiseComparator (user_key (fst ?first)) (user_key (fst (ex_key ''a'' 6, ''v0''))) = 0"
    by (simp_all add: ex_key_def)
  have h7: "(3 :: 64 word) \<le> sequence (fst (ex_key ''a'' 3, ''v0''))"
    "(3 :: 64 word) \<le> sequence (fst (ex_key ''a'' 6, ''v0''))"
    by (simp_all add: ex_key_def)
  have lt: "sequence (fst (ex_key ''a'' 3, ''v0'')) < sequence (fst ?first)"
    "\<not> sequence (fst (ex_key ''a'' 6, ''v0'')) < sequence (fst ?first)"
    by (simp_all add: ex_key_def)
  from same_key_entry_discarded_or_fault [OF h1 h2 h3 h4 h5 h6(1) h7(1)] lt(1)
  have good: "BuildTable ''db'' ex_collab ex_options ex_iter ex_meta BytewiseComparator 2 3 {}
     = BuildTable ''db'' ex_collab ex_options (ex_iter\<lparr>entries := [?first, (ex_key ''b'' 4, ''v2'')]\<rparr>)
         ex_meta BytewiseComparator 2 3 {}"
    by simp
  from same_key_entry_discarded_or_fault [OF h1 h2 h3' h4 h5 h6(2) h7(2)] lt(2)
  have "BuildTable ''db'' ex_collab ex_options ?bad ex_meta BytewiseComparator 2 3 {}
     = (AssertionFailed, ?w)"
    by simp
  with good show ?thesis
    by simp
qed

text \<open>
  C10. When the output file was created, \<^verbatim>\<open>Finish\<close> succeeded and the call returns a
  failure all the same (from the sync, the close, the verification or the source's deferred
  status), the descriptor is not reset: \<open>file_size\<close> is the size the writer reported,
  which is positive, and \<open>smallest\<close> and \<open>largest\<close> are the first and the last key
  written. The last action was to delete the output file, which is not on disk.
\<close>

theorem descriptor_kept_after_late_failure:
  assumes "entries iter \<noteq> []"
    and "env_NewWritableFile c (TableFileName c dbname (number meta0)) = OK"
    and "BuildTable dbname c options iter meta0 cmp newest earliest disk0 = (Returned s, w)"
    and "builder_Finish c (adds (calls w)) = OK"
    and "s \<noteq> OK"
  shows "file_size (meta w) = builder_FileSize c (adds (calls w))
       \<and> 0 < file_size (meta w)
       \<and> adds (calls w) \<noteq> []
       \<and> smallest (meta w) = Some (fst (hd (adds (calls w))))
       \<and> largest (meta w) = Some (fst (last (adds (calls w))))
       \<and> last (calls w) = DeleteFile (TableFileName c dbname (number meta0))
       \<and> TableFileName c dbname (number meta0) \<notin> disk w"
proof -
  let ?f = "TableFileName c dbname (number meta0)"
  from BuildTable_created [OF assms(1,2), of options cmp newest earliest disk0] assms(3)
  obtain w4 ws where r: "after_pass c options iter ?f OK w4 = (Returned s, w)"
    and ws: "ws \<noteq> []" "hd ws = hd (entries iter)"
    and w4: "calls w4 = NewWritableFile ?f # map add_call ws"
      "meta w4 = meta0\<lparr>file_size := 0, smallest := Some (fst (hd (entries iter))),
                               largest := Some (fst (last ws))\<rparr>"
    by auto
  have a: "adds (calls w) = ws" "adds (calls w4) = ws"
    using after_pass_frame(4) [OF r] w4(1) by simp_all
  then have fin: "builder_Finish c (adds (calls w4)) = OK"
    using assms(4) by simp
  from after_pass_finish_ok(1,2) [OF r fin] after_pass_failure [OF r assms(5)] a ws w4(2)
  show ?thesis
    by simp
qed

theorem descriptor_kept_after_late_failure_witness:
  "BuildTable ''db'' (ex_collab\<lparr>table_cache_NewIterator := (\<lambda>n size. NotOK ''Corruption'')\<rparr>)
       ex_options ex_iter ex_meta BytewiseComparator 2 3 {}
     = (Returned (NotOK ''Corruption''),
        \<lparr>meta = \<lparr>number = 7, file_size = 100, smallest = Some (ex_key ''a'' 5),
                  largest = Some (ex_key ''b'' 4)\<rparr>,
         calls = [NewWritableFile ''db/7.sst'', Add (ex_key ''a'' 5) ''v1'', Add (ex_key ''b'' 4) ''v2'',
                  Finish, DeleteBuilder, Sync, Close, NewIterator 7 100, DeleteFile ''db/7.sst''],
         disk = {}\<rparr>)
   \<and> (0 :: 64 word) < 100
   \<and> NotOK ''Corruption'' \<noteq> OK"
proof -
  let ?c = "ex_collab\<lparr>table_cache_NewIterator := (\<lambda>n size. NotOK ''Corruption'')\<rparr>"
  let ?w = "\<lparr>meta = \<lparr>number = 7, file_size = 100, smallest = Some (ex_key ''a'' 5),
                  largest = Some (ex_key ''b'' 4)\<rparr>,
         calls = [NewWritableFile ''db/7.sst'', Add (ex_key ''a'' 5) ''v1'', Add (ex_key ''b'' 4) ''v2'',
                  Finish, DeleteBuilder, Sync, Close, NewIterator 7 100, DeleteFile ''db/7.sst''],
         disk = {}\<rparr>"
  have b: "BuildTable ''db'' ?c ex_options ex_iter ex_meta BytewiseComparator 2 3 {}
     = (Returned (NotOK ''Corruption''), ?w)"
    by (simp add: BuildTable_def ex_collab_def ex_options_def ex_iter_def ex_entries_def ex_meta_def
        ex_key_def purge_decision_def purge_pass_def after_pass_def stage_defs emit_def Let_def)
  have h1: "entries ex_iter \<noteq> []"
    by (simp add: ex_iter_def ex_entries_def)
  have h2: "env_NewWritableFile ?c (TableFileName ?c ''db'' (number ex_meta)) = OK"
    by (simp add: ex_collab_def)
  have h4: "builder_Finish ?c (adds (calls ?w)) = OK"
    by (simp add: ex_collab_def)
  have h5: "NotOK ''Corruption'' \<noteq> OK"
    by simp
  from descriptor_kept_after_late_failure [OF h1 h2 b h4 h5] have "(0 :: 64 word) < 100"
    by simp
  with b h5 show ?thesis
    by simp
qed

end
